theory Spec2Isabelle
  imports Main "HOL-Library.AList" "HOL-Library.Sublist"
begin

section \<open>The mautrix-go client binding (package mautrixgo)\<close>

text \<open>
  \<^verbatim>\<open>api.ClientCreationOpts\<close> is declared outside the files at hand; the fields are the ones
  the callers read and write (\<^verbatim>\<open>OptsFromClient\<close>, \<^verbatim>\<open>WithPersistentStorage\<close>,
  \<^verbatim>\<open>MustCreateClient\<close>).
\<close>

record ClientCreationOpts =
  BaseURL :: string
  UserID :: string
  DeviceID :: string
  Password :: string
  PersistentStorage :: bool
  SlidingSyncURL :: string

text \<open>
  \<^verbatim>\<open>type MautrixClient struct { client; opts; cryptoHelper }\<close>. The mautrix client and the
  crypto helper are library objects: their states are the type parameters \<open>'c\<close> and
  \<open>'h\<close>.
\<close>

record ('c, 'h) MautrixClient =
  client :: 'c
  opts :: ClientCreationOpts
  cryptoHelper :: 'h

text \<open>
  \<^verbatim>\<open>cryptoHelper.Close()\<close> is the library's: it either panics (\<open>Inl\<close>) or leaves a new
  helper state together with the error it returns (\<open>None\<close> is \<^verbatim>\<open>nil\<close>).
\<close>

type_synonym 'h helper_close = "'h \<Rightarrow> string + ('h \<times> string option)"

text \<open>
  \<^verbatim>\<open>func (c *MautrixClient) Close(t ct.TestLike) { c.cryptoHelper.Close() }\<close>:
  the returned error is dropped and \<^verbatim>\<open>t\<close> is not touched. The result is the client
  and the test handle after the call, or the panic.
\<close>

definition Close ::
  "'h helper_close \<Rightarrow> ('c, 'h) MautrixClient \<Rightarrow> 't \<Rightarrow> string + (('c, 'h) MautrixClient \<times> 't)" where
  "Close helper_Close c t =
     (case helper_Close (cryptoHelper c) of
        Inl p \<Rightarrow> Inl p
      | Inr (h', err) \<Rightarrow> Inr (c\<lparr>cryptoHelper := h'\<rparr>, t))"

text \<open>\<^verbatim>\<open>func (c *MautrixClient) ForceClose(t ct.TestLike) { c.Close(t) }\<close>\<close>

definition ForceClose ::
  "'h helper_close \<Rightarrow> ('c, 'h) MautrixClient \<Rightarrow> 't \<Rightarrow> string + (('c, 'h) MautrixClient \<times> 't)" where
  "ForceClose helper_Close c t = Close helper_Close c t"


section \<open>Creating an encrypted room (tests/main\_test.go)\<close>

text \<open>
  The request body is a \<^verbatim>\<open>map[string]interface{}\<close>. The values stored in it are
  strings, ints, \<^verbatim>\<open>[]string\<close>, nested maps and \<^verbatim>\<open>[]map[string]interface{}\<close>. A map is
  an association list read with \<^const>\<open>map_of\<close> and written with \<^const>\<open>AList.update\<close>.
\<close>

datatype go_value =
    VString string
  | VInt int
  | VStrings "string list"
  | VMap "(string \<times> go_value) list"
  | VMaps "(string \<times> go_value) list list"

type_synonym go_map = "(string \<times> go_value) list"

text \<open>The options that \<^verbatim>\<open>EncRoomOptions\<close> provides, one constructor per method.\<close>

datatype EncRoomOption =
    PresetPrivateChat
  | PresetTrustedPrivateChat
  | PresetPublicChat
  | Invite "string list"
  | RotationPeriodMsgs int

datatype go_panic = TypeAssertion | IndexOutOfRange

text \<open>\<^verbatim>\<open>reqBody["preset"] = preset\<close>\<close>

definition setPreset :: "string \<Rightarrow> go_map \<Rightarrow> go_panic + go_map" where
  "setPreset preset reqBody = Inr (AList.update ''preset'' (VString preset) reqBody)"

text \<open>
  The closure of \<^verbatim>\<open>RotationPeriodMsgs\<close>: two type assertions (each panics on a missing
  key or another dynamic type), the index \<^verbatim>\<open>[0]\<close> (panics on an empty slice), and the
  write into the content map. Go maps are references, so the write shows in the request
  body: the model rebuilds the enclosing values.
\<close>

definition rotationPeriodMsgs :: "int \<Rightarrow> go_map \<Rightarrow> go_panic + go_map" where
  "rotationPeriodMsgs numMsgs reqBody =
     (case map_of reqBody ''initial_state'' of
        Some (VMaps initial_state) \<Rightarrow>
          (case initial_state of
             [] \<Rightarrow> Inl IndexOutOfRange
           | event # rest \<Rightarrow>
               (case map_of event ''content'' of
                  Some (VMap content) \<Rightarrow>
                    Inr (AList.update ''initial_state''
                          (VMaps (AList.update ''content''
                                    (VMap (AList.update ''rotation_period_msgs'' (VInt numMsgs) content))
                                    event # rest))
                          reqBody)
                | _ \<Rightarrow> Inl TypeAssertion))
      | _ \<Rightarrow> Inl TypeAssertion)"

fun apply_option :: "EncRoomOption \<Rightarrow> go_map \<Rightarrow> go_panic + go_map" where
  "apply_option PresetPrivateChat reqBody = setPreset ''private_chat'' reqBody"
| "apply_option PresetTrustedPrivateChat reqBody = setPreset ''trusted_private_chat'' reqBody"
| "apply_option PresetPublicChat reqBody = setPreset ''public_chat'' reqBody"
| "apply_option (Invite invite) reqBody = Inr (AList.update ''invite'' (VStrings invite) reqBody)"
| "apply_option (RotationPeriodMsgs numMsgs) reqBody = rotationPeriodMsgs numMsgs reqBody"

text \<open>\<^verbatim>\<open>for _, option := range options { option(reqBody) }\<close>\<close>

fun apply_options :: "EncRoomOption list \<Rightarrow> go_map \<Rightarrow> go_panic + go_map" where
  "apply_options [] reqBody = Inr reqBody"
| "apply_options (option # options) reqBody =
     (case apply_option option reqBody of
        Inl p \<Rightarrow> Inl p
      | Inr reqBody' \<Rightarrow> apply_options options reqBody')"

definition initial_reqBody :: "string \<Rightarrow> go_map" where
  "initial_reqBody name =
     [(''name'', VString name),
      (''preset'', VString ''private_chat''),
      (''invite'', VStrings []),
      (''initial_state'',
         VMaps [[(''type'', VString ''m.room.encryption''),
                 (''state_key'', VString ''''),
                 (''content'', VMap [(''algorithm'', VString ''m.megolm.v1.aes-sha2'')])]])]"

text \<open>
  \<^verbatim>\<open>CreateNewEncryptedRoom\<close>: \<open>name\<close> is \<^verbatim>\<open>t.Name()\<close> and \<open>MustCreateRoom\<close> is the
  Complement client's call, which receives the request body.
\<close>

definition CreateNewEncryptedRoom ::
  "(go_map \<Rightarrow> 'r) \<Rightarrow> string \<Rightarrow> EncRoomOption list \<Rightarrow> go_panic + 'r" where
  "CreateNewEncryptedRoom MustCreateRoom name options =
     (case apply_options options (initial_reqBody name) of
        Inl p \<Rightarrow> Inl p
      | Inr reqBody \<Rightarrow> Inr (MustCreateRoom reqBody))"

text \<open>
  The request body holds exactly one initial state event, of type \<^verbatim>\<open>m.room.encryption\<close>,
  with the empty state key and the megolm algorithm in its content.
\<close>

definition is_encryption_event :: "go_map \<Rightarrow> bool" where
  "is_encryption_event event \<longleftrightarrow>
     map_of event ''type'' = Some (VString ''m.room.encryption'') \<and>
     map_of event ''state_key'' = Some (VString '''') \<and>
     (case map_of event ''content'' of
        Some (VMap content) \<Rightarrow> map_of content ''algorithm'' = Some (VString ''m.megolm.v1.aes-sha2'')
      | _ \<Rightarrow> False)"

definition has_encryption_event :: "go_map \<Rightarrow> bool" where
  "has_encryption_event reqBody \<longleftrightarrow>
     (case map_of reqBody ''initial_state'' of
        Some (VMaps [event]) \<Rightarrow> is_encryption_event event
      | _ \<Rightarrow> False)"


section \<open>The deployment (package deploy)\<close>

subsection \<open>Effects\<close>

text \<open>
  A container request as \<^verbatim>\<open>RunNewDeployment\<close> fills it in. \<^verbatim>\<open>WaitingFor\<close> is the readiness
  signal: a line in the container's log, or a command run in the container whose exit
  code the matcher accepts (the one matcher of the source accepts exactly \<open>0\<close>).
\<close>

datatype wait_strategy = ForLog string | ForExec "string list"

record ContainerRequest =
  Image :: string
  ExposedPorts :: "string list"
  Env :: "(string \<times> string) list"
  WaitingFor :: wait_strategy
  Networks :: "string list"
  NetworkAliases :: "(string \<times> string list) list"

text \<open>What one readiness poll of a container sees: its log so far and the probe's exit code.\<close>

record observation =
  log_so_far :: string
  probe_exit :: int

text \<open>
  A \<^verbatim>\<open>testcontainers.Container\<close> is an object of the library. The model keeps the request
  it was made from and what its methods answer: \<^verbatim>\<open>Terminate\<close> (\<open>None\<close> is a \<^verbatim>\<open>nil\<close>
  error), \<^verbatim>\<open>Logs\<close>, \<^verbatim>\<open>Host\<close>, \<^verbatim>\<open>MappedPort\<close>, and what the successive readiness polls
  observe.
\<close>

record container =
  creq :: ContainerRequest
  polls :: "observation list"
  Terminate_err :: "string option"
  Logs_result :: "string + string"
  Host_result :: "string + string"
  MappedPort_result :: "(string \<times> string) list"

record Cmd =
  Args :: "string list"
  Process :: "nat option"

record ReverseProxyController =
  listenPort :: "int option"

text \<open>
  \<^verbatim>\<open>complement.Deployment\<close>: the network's name and the base URL of each homeserver.
\<close>

record complement_Deployment =
  Network :: string
  BaseURLs :: "(string \<times> string) list"

text \<open>
  \<^verbatim>\<open>type SlidingSyncDeployment struct\<close>. The containers and the command are compared with
  \<^verbatim>\<open>nil\<close> by \<^verbatim>\<open>Teardown\<close>, so they are options. The controller is the one that
  \<^verbatim>\<open>RunNewDeployment\<close> makes; its type and methods are defined outside the files at hand.
\<close>

record SlidingSyncDeployment =
  Deployment :: complement_Deployment
  ReverseProxyController :: ReverseProxyController
  postgres :: "container option"
  slidingSync :: "container option"
  reverseProxy :: "container option"
  slidingSyncURL :: string
  tcpdump :: "Cmd option"

datatype go_context = Background | WithTimeout nat

text \<open>
  The effects of provisioning and teardown, as events: a call that succeeded in
  provisioning something, a file created or written, a line printed, a call of
  \<^verbatim>\<open>Terminate\<close> on a container or on the controller, a signal sent to a process and a wait
  for its exit.
\<close>

datatype event =
    ComplementDeployed nat
  | ControllerListening int
  | ContainerStarted ContainerRequest
  | CmdStarted "string list"
  | FileCreated string
  | FileWritten string string
  | LogPrintf string
  | Println string
  | ContainerTerminate ContainerRequest
  | ControllerTerminate
  | ProcessSignal nat string
  | ProcessWait nat

text \<open>
  The part of the world the deployment acts on: the effects so far, in order, and the files
  written. What the libraries and the operating system answer is fixed in \<open>env\<close>.
\<close>

record world =
  trace :: "event list"
  files :: "(string \<times> string) list"

record env =
  complement_Deploy :: "nat \<Rightarrow> string + complement_Deployment"
  controller_Listen :: "string + int"
  docker_create :: "ContainerRequest \<Rightarrow> string + container"
  polls_before_deadline :: "go_context \<Rightarrow> wait_strategy \<Rightarrow> nat"
  url_Port :: "string \<Rightarrow> string option"
  cmd_Start :: "string list \<Rightarrow> string + nat"
  process_Signal :: "string option"
  process_Wait :: "string option"
  os_Create :: "string \<Rightarrow> string option"
  io_Copy :: "string \<Rightarrow> string \<times> string option"

text \<open>
  An action ends the test (\<^verbatim>\<open>t.Fatalf\<close>), ends the process (\<^verbatim>\<open>log.Fatalf\<close>, that is
  \<^verbatim>\<open>os.Exit(1)\<close> after printing), panics on a \<^verbatim>\<open>nil\<close> pointer, or returns a value.
\<close>

datatype abort = TestFatal string | OsExit int | NilPointer

type_synonym 'a action = "world \<Rightarrow> (abort + 'a) \<times> world"

definition ret :: "'a \<Rightarrow> 'a action" where
  "ret x w = (Inr x, w)"

definition and_then :: "'a action \<Rightarrow> ('a \<Rightarrow> 'b action) \<Rightarrow> 'b action" where
  "and_then m f w = (case m w of (Inl a, w') \<Rightarrow> (Inl a, w') | (Inr x, w') \<Rightarrow> f x w')"

definition emit :: "event \<Rightarrow> unit action" where
  "emit e w = (Inr (), w\<lparr>trace := trace w @ [e]\<rparr>)"

definition abort_with :: "abort \<Rightarrow> 'a action" where
  "abort_with a w = (Inl a, w)"

definition t_Fatalf :: "string \<Rightarrow> 'a action" where
  "t_Fatalf msg = abort_with (TestFatal msg)"

definition log_Printf :: "string \<Rightarrow> unit action" where
  "log_Printf msg = emit (LogPrintf msg)"

definition log_Fatalf :: "string \<Rightarrow> 'a action" where
  "log_Fatalf msg = and_then (emit (LogPrintf msg)) (\<lambda>_. abort_with (OsExit 1))"

text \<open>
  A Go call that returns a value and an error is a sum (\<open>Inl\<close> the error). The source checks
  the error next: \<^verbatim>\<open>if err != nil { t.Fatalf(...) }\<close>, or \<^verbatim>\<open>must.NotError(t, msg, err)\<close> of
  Complement, which is fatal to the test when \<^verbatim>\<open>err\<close> is not \<^verbatim>\<open>nil\<close>; then it uses the value.
\<close>

definition or_Fatalf :: "(string \<Rightarrow> string) \<Rightarrow> string + 'a \<Rightarrow> 'a action" where
  "or_Fatalf format r = (case r of Inl e \<Rightarrow> t_Fatalf (format e) | Inr x \<Rightarrow> ret x)"

definition must_NotError :: "string \<Rightarrow> string + 'a \<Rightarrow> 'a action" where
  "must_NotError msg r = or_Fatalf (\<lambda>e. ''must.NotError: '' @ msg @ '' -> '' @ e) r"

text \<open>How \<^verbatim>\<open>%s\<close>, \<^verbatim>\<open>%d\<close> and \<^verbatim>\<open>Println\<close> print an error and a number.\<close>

definition show_err :: "string option \<Rightarrow> string" where
  "show_err err = (case err of None \<Rightarrow> ''<nil>'' | Some e \<Rightarrow> e)"

definition digit :: "nat \<Rightarrow> char" where
  "digit n = ''0123456789'' ! n"

fun show_nat :: "nat \<Rightarrow> string" where
  "show_nat n =
     (if n < 10 then [digit n] else show_nat (n div 10) @ [digit (n mod 10)])"

definition show_int :: "int \<Rightarrow> string" where
  "show_int i = (if i < 0 then CHR ''-'' # show_nat (nat (- i)) else show_nat (nat i))"


subsection \<open>Teardown\<close>

text \<open>
  \<^verbatim>\<open>writeContainerLogs\<close> returns its error as a value (\<open>None\<close> is \<^verbatim>\<open>nil\<close>). \<^verbatim>\<open>os.Create\<close>
  leaves an empty file; \<^verbatim>\<open>io.Copy\<close> writes some of the log and may report an error.
\<close>

definition create_file :: "string \<Rightarrow> unit action" where
  "create_file filename w =
     (Inr (), w\<lparr>trace := trace w @ [FileCreated filename],
                files := AList.update filename '''' (files w)\<rparr>)"

definition write_file :: "string \<Rightarrow> string \<Rightarrow> unit action" where
  "write_file filename written w =
     (Inr (), w\<lparr>trace := trace w @ [FileWritten filename written],
                files := AList.update filename written (files w)\<rparr>)"

definition writeContainerLogs :: "env \<Rightarrow> container \<Rightarrow> string \<Rightarrow> string option action" where
  "writeContainerLogs env container filename =
     (case os_Create env filename of
        Some e \<Rightarrow> ret (Some (''os.Create: '' @ e))
      | None \<Rightarrow>
          and_then (create_file filename) (\<lambda>_.
            case Logs_result container of
              Inl e \<Rightarrow> ret (Some (''container.Logs: '' @ e))
            | Inr reader \<Rightarrow>
                (case io_Copy env reader of
                   (written, err) \<Rightarrow>
                     and_then (write_file filename written) (\<lambda>_.
                       case err of
                         Some e \<Rightarrow> ret (Some (''io.Copy: '' @ e))
                       | None \<Rightarrow> ret None))))"

text \<open>\<^verbatim>\<open>c.Terminate(context.Background())\<close>: the call is an effect, its error a value.\<close>

definition Terminate :: "container \<Rightarrow> string option action" where
  "Terminate c = and_then (emit (ContainerTerminate (creq c))) (\<lambda>_. ret (Terminate_err c))"

text \<open>The four \<^verbatim>\<open>if\<close> blocks of \<^verbatim>\<open>Teardown\<close>, in the order of the source.\<close>

definition teardown_slidingSync :: "env \<Rightarrow> SlidingSyncDeployment \<Rightarrow> bool \<Rightarrow> unit action" where
  "teardown_slidingSync env d writeLogs =
     (case slidingSync d of
        None \<Rightarrow> ret ()
      | Some c \<Rightarrow>
          and_then
            (if writeLogs then
               and_then (writeContainerLogs env c ''container-sliding-sync.log'') (\<lambda>err.
                 case err of
                   Some e \<Rightarrow> log_Printf (''failed to write sliding sync logs: '' @ e)
                 | None \<Rightarrow> ret ())
             else ret ())
            (\<lambda>_. and_then (Terminate c) (\<lambda>err.
               case err of
                 Some e \<Rightarrow> log_Fatalf (''failed to stop sliding sync: '' @ e)
               | None \<Rightarrow> ret ())))"

definition teardown_postgres :: "SlidingSyncDeployment \<Rightarrow> unit action" where
  "teardown_postgres d =
     (case postgres d of
        None \<Rightarrow> ret ()
      | Some c \<Rightarrow>
          and_then (Terminate c) (\<lambda>err.
            case err of
              Some e \<Rightarrow> log_Fatalf (''failed to stop postgres: '' @ e)
            | None \<Rightarrow> ret ()))"

text \<open>
  \<^verbatim>\<open>ReverseProxyController.Terminate\<close> is defined outside the files at hand: the call is
  recorded as an effect.
\<close>

definition teardown_reverseProxy :: "SlidingSyncDeployment \<Rightarrow> unit action" where
  "teardown_reverseProxy d =
     (case reverseProxy d of
        None \<Rightarrow> ret ()
      | Some c \<Rightarrow>
          and_then (emit ControllerTerminate) (\<lambda>_.
            and_then (Terminate c) (\<lambda>err.
              case err of
                Some e \<Rightarrow> log_Fatalf (''failed to stop reverse proxy: '' @ e)
              | None \<Rightarrow> ret ())))"

text \<open>
  The arguments of each \<^verbatim>\<open>fmt.Println\<close> are evaluated before it prints: the signal is sent,
  then reported; the wait ends, then is reported. Both errors are only printed.
\<close>

definition teardown_tcpdump :: "env \<Rightarrow> SlidingSyncDeployment \<Rightarrow> unit action" where
  "teardown_tcpdump env d =
     (case tcpdump d of
        None \<Rightarrow> ret ()
      | Some cmd \<Rightarrow>
          (case Process cmd of
             None \<Rightarrow> abort_with NilPointer
           | Some pid \<Rightarrow>
               and_then (emit (ProcessSignal pid ''interrupt'')) (\<lambda>_.
               and_then (emit (Println (''Sent SIGINT to tcpdump, waiting for it to exit, err= ''
                                          @ show_err (process_Signal env)))) (\<lambda>_.
               and_then (emit (ProcessWait pid)) (\<lambda>_.
               emit (Println (''tcpdump finished, err= '' @ show_err (process_Wait env))))))))"

definition Teardown :: "env \<Rightarrow> SlidingSyncDeployment \<Rightarrow> bool \<Rightarrow> unit action" where
  "Teardown env d writeLogs =
     and_then (teardown_slidingSync env d writeLogs) (\<lambda>_.
     and_then (teardown_postgres d) (\<lambda>_.
     and_then (teardown_reverseProxy d) (\<lambda>_.
     teardown_tcpdump env d)))"

text \<open>The components of the topology, and the component a container request belongs to
  (by its network alias).\<close>

datatype component = TheNetwork | TheDatastore | TheReverseProxy | TheSyncProxy

definition component_of :: "ContainerRequest \<Rightarrow> component option" where
  "component_of req =
     (let aliases = concat (map snd (NetworkAliases req))
      in if ''postgres'' \<in> set aliases then Some TheDatastore
         else if ''reverseproxy'' \<in> set aliases then Some TheReverseProxy
         else if ''ssproxy'' \<in> set aliases then Some TheSyncProxy
         else None)"

text \<open>What a trace says was provisioned, and which containers had \<^verbatim>\<open>Terminate\<close> called, in
  the order of the events.\<close>

fun started :: "event list \<Rightarrow> ContainerRequest list" where
  "started [] = []"
| "started (ContainerStarted req # es) = req # started es"
| "started (e # es) = started es"

fun terminations :: "event list \<Rightarrow> ContainerRequest list" where
  "terminations [] = []"
| "terminations (ContainerTerminate req # es) = req # terminations es"
| "terminations (e # es) = terminations es"

fun provisioning_order :: "event list \<Rightarrow> component list" where
  "provisioning_order [] = []"
| "provisioning_order (ComplementDeployed n # es) = TheNetwork # provisioning_order es"
| "provisioning_order (ContainerStarted req # es) =
     (case component_of req of
        None \<Rightarrow> provisioning_order es
      | Some c \<Rightarrow> c # provisioning_order es)"
| "provisioning_order (e # es) = provisioning_order es"

definition teardown_order :: "event list \<Rightarrow> component list" where
  "teardown_order tr = List.map_filter component_of (terminations tr)"

subsection \<open>Provisioning\<close>

text \<open>
  Modelled from the spec: \<^verbatim>\<open>testcontainers.GenericContainer\<close> with \<^verbatim>\<open>Started: true\<close> is the
  library's. It creates and starts the container, then polls the readiness signal of the
  request, a log line appearing or a command exiting zero, until the startup deadline, and
  returns an error when the deadline passes first.
\<close>

fun ready :: "wait_strategy \<Rightarrow> observation \<Rightarrow> bool" where
  "ready (ForLog line) ob = sublist line (log_so_far ob)"
| "ready (ForExec cmd) ob = (probe_exit ob = 0)"

fun poll_ready :: "wait_strategy \<Rightarrow> observation list \<Rightarrow> nat \<Rightarrow> bool" where
  "poll_ready strategy obs 0 = False"
| "poll_ready strategy [] (Suc n) = False"
| "poll_ready strategy (ob # obs) (Suc n) = (ready strategy ob \<or> poll_ready strategy obs n)"

definition GenericContainer ::
  "env \<Rightarrow> go_context \<Rightarrow> ContainerRequest \<Rightarrow> (string + container) action" where
  "GenericContainer env ctx req =
     (case docker_create env req of
        Inl e \<Rightarrow> ret (Inl e)
      | Inr c \<Rightarrow>
          if poll_ready (WaitingFor req) (polls c) (polls_before_deadline env ctx (WaitingFor req))
          then and_then (emit (ContainerStarted req)) (\<lambda>_. ret (Inr (c\<lparr>creq := req\<rparr>)))
          else ret (Inl ''context deadline exceeded''))"

text \<open>\<^verbatim>\<open>externalURL\<close>: \<^verbatim>\<open>http://host:port\<close> from the container's host and mapped port.\<close>

definition MappedPort :: "container \<Rightarrow> string \<Rightarrow> string + string" where
  "MappedPort c exposedPort =
     (case map_of (MappedPort_result c) exposedPort of
        None \<Rightarrow> Inl ''port not found''
      | Some mappedPort \<Rightarrow> Inr mappedPort)"

definition externalURL :: "container \<Rightarrow> string \<Rightarrow> string action" where
  "externalURL c exposedPort =
     and_then (must_NotError ''failed to get host'' (Host_result c)) (\<lambda>host.
     and_then (must_NotError ''failed to get mapped port'' (MappedPort c exposedPort)) (\<lambda>mappedPort.
     ret (''http://'' @ host @ '':'' @ mappedPort)))"

text \<open>
  The three container requests. The controller URL is built by a \<^verbatim>\<open>Sprintf\<close> whose format
  has no verb, so the port is printed as an extra argument.
\<close>

definition reverseProxyRequest :: "string \<Rightarrow> int \<Rightarrow> ContainerRequest" where
  "reverseProxyRequest networkName controllerPort =
     \<lparr>Image = ''ghcr.io/matrix-org/complement-crypto-reverse-proxy:latest'',
      ExposedPorts = [''3000/tcp'', ''3001/tcp''],
      Env = [(''REVERSE_PROXY_CONTROLLER_URL'',
                ''http://host.docker.internal:%!(EXTRA int='' @ show_int controllerPort @ '')''),
             (''REVERSE_PROXY_HOSTS'', ''http://hs1,3000;http://hs2,3001'')],
      WaitingFor = ForLog ''listening'',
      Networks = [networkName],
      NetworkAliases = [(networkName, [''reverseproxy''])]\<rparr>"

definition postgresRequest :: "string \<Rightarrow> ContainerRequest" where
  "postgresRequest networkName =
     \<lparr>Image = ''postgres:13-alpine'',
      ExposedPorts = [''5432/tcp''],
      Env = [(''POSTGRES_USER'', ''postgres''),
             (''POSTGRES_PASSWORD'', ''postgres''),
             (''POSTGRES_DB'', ''syncv3'')],
      WaitingFor = ForExec [''pg_isready''],
      Networks = [networkName],
      NetworkAliases = [(networkName, [''postgres''])]\<rparr>"

definition slidingSyncRequest :: "string \<Rightarrow> ContainerRequest" where
  "slidingSyncRequest networkName =
     \<lparr>Image = ''ghcr.io/matrix-org/sliding-sync:v0.99.12'',
      ExposedPorts = [''6789/tcp''],
      Env = [(''SYNCV3_SECRET'', ''secret''),
             (''SYNCV3_BINDADDR'', '':6789''),
             (''SYNCV3_SERVER'', ''http://hs1:8008''),
             (''SYNCV3_DB'', ''user=postgres dbname=syncv3 sslmode=disable password=postgres host=postgres'')],
      WaitingFor = ForLog ''listening on'',
      Networks = [networkName],
      NetworkAliases = [(networkName, [''ssproxy''])]\<rparr>"

text \<open>\<^verbatim>\<open>deployment.UnauthenticatedClient(t, hs).BaseURL\<close>; an unknown server is fatal.\<close>

definition UnauthenticatedClient_BaseURL :: "complement_Deployment \<Rightarrow> string \<Rightarrow> string action" where
  "UnauthenticatedClient_BaseURL deployment hs =
     (case map_of (BaseURLs deployment) hs of
        None \<Rightarrow> t_Fatalf (''HS name not found: '' @ hs)
      | Some url \<Rightarrow> ret url)"

text \<open>
  \<^verbatim>\<open>url.Parse\<close> errors are dropped by the source; the \<^verbatim>\<open>Port\<close> of the \<^verbatim>\<open>nil\<close> URL of a
  failed parse is a \<^verbatim>\<open>nil\<close> dereference.
\<close>

definition parsed_Port :: "env \<Rightarrow> string \<Rightarrow> string action" where
  "parsed_Port env u = (case url_Port env u of None \<Rightarrow> abort_with NilPointer | Some p \<Rightarrow> ret p)"

definition start_tcpdump :: "env \<Rightarrow> string \<Rightarrow> string \<Rightarrow> string \<Rightarrow> Cmd option action" where
  "start_tcpdump env ssURL baseURL1 baseURL2 =
     and_then (parsed_Port env ssURL) (\<lambda>su.
     and_then (parsed_Port env baseURL1) (\<lambda>cu1.
     and_then (parsed_Port env baseURL2) (\<lambda>cu2.
       let filter = ''tcp port '' @ su @ '' or port '' @ cu1 @ '' or port '' @ cu2;
           args = [''tcpdump'', ''-i'', ''any'', ''-s'', ''0'', filter, ''-w'', ''test.pcap'']
       in and_then (or_Fatalf (\<lambda>e. ''tcpdump failed: '' @ e) (cmd_Start env args)) (\<lambda>pid.
          and_then (emit (CmdStarted args)) (\<lambda>_.
            ret (Some \<lparr>Args = args, Process = Some pid\<rparr>))))))"

text \<open>
  \<^verbatim>\<open>complement.Deploy(t, 2)\<close> deploys the network with its homeservers, and is fatal to the
  test when it fails; \<^verbatim>\<open>controller.Listen()\<close> returns the controller's port or an error.
  Both are defined outside the files at hand: what they answer is in \<open>env\<close>.
\<close>

definition complement_Deploy_t :: "env \<Rightarrow> nat \<Rightarrow> complement_Deployment action" where
  "complement_Deploy_t env n =
     and_then (or_Fatalf (\<lambda>e. e) (complement_Deploy env n)) (\<lambda>deployment.
     and_then (emit (ComplementDeployed n)) (\<lambda>_. ret deployment))"

definition Listen :: "env \<Rightarrow> (string + int) action" where
  "Listen env =
     (case controller_Listen env of
        Inl e \<Rightarrow> ret (Inl e)
      | Inr port \<Rightarrow> and_then (emit (ControllerListening port)) (\<lambda>_. ret (Inr port)))"

text \<open>
  \<^verbatim>\<open>RunNewDeployment(t, shouldTCPDump)\<close>. The lines that only write to the test's log are
  left out. The context with the 60 second timeout is passed to the sliding sync container
  only, as in the source.
\<close>

definition RunNewDeployment :: "env \<Rightarrow> bool \<Rightarrow> SlidingSyncDeployment action" where
  "RunNewDeployment env shouldTCPDump =
     and_then (complement_Deploy_t env 2) (\<lambda>deployment.
     let networkName = Network deployment in
     and_then (Listen env) (\<lambda>r.
     and_then (or_Fatalf (\<lambda>e. ''reverse proxy controller failed to listen: '' @ e) r) (\<lambda>controllerPort.
     and_then (GenericContainer env Background (reverseProxyRequest networkName controllerPort)) (\<lambda>r.
     and_then (must_NotError ''failed to start reverse proxy container'' r) (\<lambda>rpContainer.
     and_then (externalURL rpContainer ''3000/tcp'') (\<lambda>rpHS1URL.
     and_then (externalURL rpContainer ''3001/tcp'') (\<lambda>rpHS2URL.
     and_then (GenericContainer env Background (postgresRequest networkName)) (\<lambda>r.
     and_then (must_NotError ''failed to start postgres container'' r) (\<lambda>postgresContainer.
     and_then (GenericContainer env (WithTimeout 60) (slidingSyncRequest networkName)) (\<lambda>r.
     and_then (must_NotError ''failed to start sliding sync container'' r) (\<lambda>ssContainer.
     and_then (externalURL ssContainer ''6789/tcp'') (\<lambda>ssURL.
     and_then (UnauthenticatedClient_BaseURL deployment ''hs1'') (\<lambda>baseURL1.
     and_then (UnauthenticatedClient_BaseURL deployment ''hs2'') (\<lambda>baseURL2.
     and_then (if shouldTCPDump then start_tcpdump env ssURL baseURL1 baseURL2 else ret None) (\<lambda>cmd.
     ret \<lparr>Deployment = deployment,
          ReverseProxyController = \<lparr>listenPort = Some controllerPort\<rparr>,
          postgres = Some postgresContainer,
          slidingSync = Some ssContainer,
          reverseProxy = Some rpContainer,
          slidingSyncURL = ssURL,
          tcpdump = cmd\<rparr>)))))))))))))))"

subsection \<open>Reading a trace\<close>

text \<open>The files the events create or write.\<close>

fun files_touched :: "event list \<Rightarrow> string list" where
  "files_touched [] = []"
| "files_touched (FileCreated f # es) = f # files_touched es"
| "files_touched (FileWritten f s # es) = f # files_touched es"
| "files_touched (e # es) = files_touched es"

text \<open>
  The containers a deployment owns, in the order in which \<^verbatim>\<open>Teardown\<close> visits them, and the
  part of such a list up to and including the first container whose \<^verbatim>\<open>Terminate\<close> fails.
\<close>

definition present :: "'a option \<Rightarrow> 'a list" where
  "present x = (case x of None \<Rightarrow> [] | Some c \<Rightarrow> [c])"

definition owned :: "SlidingSyncDeployment \<Rightarrow> container list" where
  "owned d = present (slidingSync d) @ present (postgres d) @ present (reverseProxy d)"

fun until_first_failure :: "container list \<Rightarrow> container list" where
  "until_first_failure [] = []"
| "until_first_failure (c # cs) =
     (if Terminate_err c = None then c # until_first_failure cs else [c])"

definition all_terminate :: "container list \<Rightarrow> bool" where
  "all_terminate cs \<longleftrightarrow> list_all (\<lambda>c. Terminate_err c = None) cs"

text \<open>How terminating the containers \<open>cs\<close> ends: it returns, or the process exits with 1.\<close>

definition outcome :: "container list \<Rightarrow> abort + unit" where
  "outcome cs = (if all_terminate cs then Inr () else Inl (OsExit 1))"

text \<open>The events of stopping the packet capture, and how that block ends.\<close>

definition tcpdump_events :: "env \<Rightarrow> SlidingSyncDeployment \<Rightarrow> event list" where
  "tcpdump_events env d =
     (case tcpdump d of
        None \<Rightarrow> []
      | Some cmd \<Rightarrow>
          (case Process cmd of
             None \<Rightarrow> []
           | Some pid \<Rightarrow>
               [ProcessSignal pid ''interrupt'',
                Println (''Sent SIGINT to tcpdump, waiting for it to exit, err= ''
                           @ show_err (process_Signal env)),
                ProcessWait pid,
                Println (''tcpdump finished, err= '' @ show_err (process_Wait env))]))"

definition tcpdump_outcome :: "SlidingSyncDeployment \<Rightarrow> abort + unit" where
  "tcpdump_outcome d =
     (case tcpdump d of
        None \<Rightarrow> Inr ()
      | Some cmd \<Rightarrow> (case Process cmd of None \<Rightarrow> Inl NilPointer | Some pid \<Rightarrow> Inr ()))"

text \<open>
  An action \<open>performs r P\<close> when, from every world, it ends with the result \<open>r\<close> and has
  appended to the trace events that satisfy \<open>P\<close>.
\<close>

definition performs :: "'a action \<Rightarrow> (abort + 'a) \<Rightarrow> (event list \<Rightarrow> bool) \<Rightarrow> bool" where
  "performs m r P \<longleftrightarrow>
     (\<forall>w. \<exists>evs. fst (m w) = r \<and> trace (snd (m w)) = trace w @ evs \<and> P evs)"

text \<open>The last two events are a call of \<^verbatim>\<open>Terminate\<close> and the line \<^verbatim>\<open>log.Fatalf\<close> prints for
  its failure.\<close>

fun is_fatal_line :: "event \<Rightarrow> bool" where
  "is_fatal_line (LogPrintf msg) = prefix ''failed to stop '' msg"
| "is_fatal_line e = False"

fun is_terminate :: "event \<Rightarrow> bool" where
  "is_terminate (ContainerTerminate req) = True"
| "is_terminate e = False"

definition ends_with_fatal_log :: "event list \<Rightarrow> bool" where
  "ends_with_fatal_log evs =
     (case rev evs of
        line # call # earlier \<Rightarrow> is_fatal_line line \<and> is_terminate call
      | _ \<Rightarrow> False)"

text \<open>
  A container was seen ready by one of the polls that fit before the startup deadline
  under the context \<open>ctx\<close>.
\<close>

definition ready_within :: "env \<Rightarrow> go_context \<Rightarrow> container \<Rightarrow> bool" where
  "ready_within env ctx c \<longleftrightarrow>
     (\<exists>i < polls_before_deadline env ctx (WaitingFor (creq c)).
        i < length (polls c) \<and> ready (WaitingFor (creq c)) (polls c ! i))"

text \<open>The signals sent to a process and the waits for its exit, in the order of the events.\<close>

fun process_events :: "event list \<Rightarrow> event list" where
  "process_events [] = []"
| "process_events (ProcessSignal pid signal # es) = ProcessSignal pid signal # process_events es"
| "process_events (ProcessWait pid # es) = ProcessWait pid # process_events es"
| "process_events (e # es) = process_events es"

text \<open>An action is quiet when it sends no signal and waits for no process.\<close>

definition quiet :: "'a action \<Rightarrow> bool" where
  "quiet m \<longleftrightarrow> (\<forall>w. process_events (trace (snd (m w))) = process_events (trace w))"

subsection \<open>A concrete environment\<close>

text \<open>
  An environment in which everything succeeds: every container is ready at its second
  poll, terminates without error and has a log of its own.
\<close>

definition example_container :: "ContainerRequest \<Rightarrow> container" where
  "example_container req =
     \<lparr>creq = req,
      polls = [\<lparr>log_so_far = ''starting'', probe_exit = 1\<rparr>,
               \<lparr>log_so_far = ''starting; listening on :80'', probe_exit = 0\<rparr>],
      Terminate_err = None,
      Logs_result = Inr (''log of '' @ Image req),
      Host_result = Inr ''localhost'',
      MappedPort_result =
        [(''3000/tcp'', ''30000''), (''3001/tcp'', ''30001''), (''6789/tcp'', ''36789'')]\<rparr>"

definition example_env :: env where
  "example_env =
     \<lparr>complement_Deploy = (\<lambda>n. Inr \<lparr>Network = ''net'',
          BaseURLs = [(''hs1'', ''http://localhost:8001''), (''hs2'', ''http://localhost:8002'')]\<rparr>),
      controller_Listen = Inr 9000,
      docker_create = (\<lambda>req. Inr (example_container req)),
      polls_before_deadline = (\<lambda>ctx strategy. 60),
      url_Port = (\<lambda>u. Some (rev (takeWhile (\<lambda>c. c \<noteq> CHR '':'') (rev u)))),
      cmd_Start = (\<lambda>args. Inr 4242),
      process_Signal = None,
      process_Wait = None,
      os_Create = (\<lambda>f. None),
      io_Copy = (\<lambda>r. (r, None))\<rparr>"

definition empty_world :: world where
  "empty_world = \<lparr>trace = [], files = []\<rparr>"

text \<open>The deployment that \<^verbatim>\<open>RunNewDeployment\<close> returns in this environment, with packet capture.\<close>

definition example_deployment :: SlidingSyncDeployment where
  "example_deployment =
     \<lparr>Deployment = \<lparr>Network = ''net'',
          BaseURLs = [(''hs1'', ''http://localhost:8001''), (''hs2'', ''http://localhost:8002'')]\<rparr>,
      ReverseProxyController = \<lparr>listenPort = Some 9000\<rparr>,
      postgres = Some (example_container (postgresRequest ''net'')),
      slidingSync = Some (example_container (slidingSyncRequest ''net'')),
      reverseProxy = Some (example_container (reverseProxyRequest ''net'' 9000)),
      slidingSyncURL = ''http://localhost:36789'',
      tcpdump = Some \<lparr>Args = [''tcpdump'', ''-i'', ''any'', ''-s'', ''0'',
                               ''tcp port 36789 or port 8001 or port 8002'', ''-w'', ''test.pcap''],
                       Process = Some 4242\<rparr>\<rparr>"

text \<open>The same deployment with a sliding sync container that fails to terminate.\<close>

definition stuck_deployment :: SlidingSyncDeployment where
  "stuck_deployment =
     example_deployment
       \<lparr>slidingSync := Some ((example_container (slidingSyncRequest ''net''))
                                \<lparr>Terminate_err := Some ''timeout''\<rparr>)\<rparr>"


text \<open>
  The environment in which the sliding sync container, once started, fails to terminate,
  and the one in which the log file cannot be created.
\<close>

definition stuck_env :: env where
  "stuck_env =
     example_env
       \<lparr>docker_create := (\<lambda>req.
          if component_of req = Some TheSyncProxy
          then Inr ((example_container req)\<lparr>Terminate_err := Some ''timeout''\<rparr>)
          else Inr (example_container req))\<rparr>"

definition readonly_env :: env where
  "readonly_env = example_env\<lparr>os_Create := (\<lambda>f. Some ''permission denied'')\<rparr>"


section \<open>The shared deployment of the test process (tests/main\_test.go)\<close>

text \<open>
  The globals of the test package: the cached deployment (\<open>None\<close> is \<^verbatim>\<open>nil\<close>), the mutex
  (\<open>None\<close> before \<^verbatim>\<open>TestMain\<close> has made it, otherwise whether it is locked) and the
  \<^verbatim>\<open>TCPDump\<close> setting of the configuration. \<open>provisionings\<close> is not a variable of the
  source: it records every call of \<^verbatim>\<open>deploy.RunNewDeployment\<close>, with its arguments.
\<close>

record 'd globals =
  ssDeployment :: "'d option"
  ssMutex :: "bool option"
  config_TCPDump :: bool
  provisionings :: "(string \<times> bool) list"

text \<open>
  What one call of \<^verbatim>\<open>Deploy\<close> meets: the answer of \<^verbatim>\<open>os.Getwd\<close>, \<^verbatim>\<open>filepath.Join\<close>, and
  the result of \<^verbatim>\<open>deploy.RunNewDeployment(t, dir, tcpdump)\<close>, which is fatal to the test
  (\<open>Inl\<close>) or returns a deployment. The three-argument \<^verbatim>\<open>RunNewDeployment\<close> that this
  file calls is not among the files at hand, so it is a parameter here.
\<close>

record 'd deploy_env =
  os_Getwd :: "string + string"
  filepath_Join :: "string \<Rightarrow> string \<Rightarrow> string"
  deploy_RunNewDeployment :: "string \<Rightarrow> bool \<Rightarrow> string + 'd"

text \<open>
  The body of \<^verbatim>\<open>Deploy\<close> between \<^verbatim>\<open>Lock\<close> and the deferred \<^verbatim>\<open>Unlock\<close>, as a call that
  nothing interrupts runs it. \<^verbatim>\<open>t.Fatalf\<close> ends the calling test and leaves the cached
  deployment as it was.
\<close>

definition Deploy_locked :: "'d deploy_env \<Rightarrow> 'd globals \<Rightarrow> (abort + 'd) \<times> 'd globals" where
  "Deploy_locked env g =
     (case ssDeployment g of
        Some d \<Rightarrow> (Inr d, g)
      | None \<Rightarrow>
          (case os_Getwd env of
             Inl err \<Rightarrow> (Inl (TestFatal (''failed to find working directory: '' @ err)), g)
           | Inr workingDir \<Rightarrow>
               (let mitmProxyAddonsDir = filepath_Join env workingDir ''mitmproxy_addons'';
                    g1 = g\<lparr>provisionings :=
                             provisionings g @ [(mitmProxyAddonsDir, config_TCPDump g)]\<rparr>
                in case deploy_RunNewDeployment env mitmProxyAddonsDir (config_TCPDump g) of
                     Inl e \<Rightarrow> (Inl (TestFatal e), g1)
                   | Inr d \<Rightarrow> (Inr d, g1\<lparr>ssDeployment := Some d\<rparr>))))"

text \<open>
  Tests run \<^verbatim>\<open>Deploy\<close> from several goroutines, so a call is followed statement by
  statement. A call is about to lock the mutex, to test \<^verbatim>\<open>ssDeployment != nil\<close>, to call
  \<^verbatim>\<open>os.Getwd\<close>, to call \<^verbatim>\<open>deploy.RunNewDeployment\<close> on the directory it has joined, to
  assign the new deployment to \<^verbatim>\<open>ssDeployment\<close>, to run the deferred \<^verbatim>\<open>Unlock\<close> with its
  result at hand, or it has returned.
\<close>

datatype 'd pc =
    Locking
  | Checking
  | Getwd
  | Provisioning string
  | Storing 'd
  | Unlocking "abort + 'd"
  | Returned "abort + 'd"

text \<open>
  One statement of one call. \<^verbatim>\<open>Lock\<close> on a \<^verbatim>\<open>nil\<close> mutex panics; on a mutex that is held
  it does not return, and the call cannot move (\<open>None\<close>) until the mutex is released.
  \<^verbatim>\<open>t.Fatalf\<close> ends the calling test through \<^verbatim>\<open>runtime.Goexit\<close>, which runs the deferred
  \<^verbatim>\<open>Unlock\<close>. The value of \<^verbatim>\<open>return ssDeployment\<close> is read in the statement that has
  just tested or assigned the variable. A call that has returned has no statement left.
\<close>

fun Deploy_step :: "'d deploy_env \<Rightarrow> 'd pc \<Rightarrow> 'd globals \<Rightarrow> ('d pc \<times> 'd globals) option" where
  "Deploy_step env Locking g =
     (case ssMutex g of
        None \<Rightarrow> Some (Returned (Inl NilPointer), g)
      | Some True \<Rightarrow> None
      | Some False \<Rightarrow> Some (Checking, g\<lparr>ssMutex := Some True\<rparr>))"
| "Deploy_step env Checking g =
     (case ssDeployment g of
        Some d \<Rightarrow> Some (Unlocking (Inr d), g)
      | None \<Rightarrow> Some (Getwd, g))"
| "Deploy_step env Getwd g =
     (case os_Getwd env of
        Inl err \<Rightarrow> Some (Unlocking (Inl (TestFatal (''failed to find working directory: '' @ err))), g)
      | Inr workingDir \<Rightarrow> Some (Provisioning (filepath_Join env workingDir ''mitmproxy_addons''), g))"
| "Deploy_step env (Provisioning mitmProxyAddonsDir) g =
     (let g1 = g\<lparr>provisionings := provisionings g @ [(mitmProxyAddonsDir, config_TCPDump g)]\<rparr>
      in case deploy_RunNewDeployment env mitmProxyAddonsDir (config_TCPDump g) of
           Inl e \<Rightarrow> Some (Unlocking (Inl (TestFatal e)), g1)
         | Inr d \<Rightarrow> Some (Storing d, g1))"
| "Deploy_step env (Storing d) g = Some (Unlocking (Inr d), g\<lparr>ssDeployment := Some d\<rparr>)"
| "Deploy_step env (Unlocking r) g = Some (Returned r, g\<lparr>ssMutex := Some False\<rparr>)"
| "Deploy_step env (Returned r) g = None"

text \<open>
  The calls of a test process, the \<open>i\<close>-th meeting \<open>envs ! i\<close> and standing at \<open>pcs ! i\<close>.
  The scheduler picks a call; it runs its next statement if it can move. \<open>run\<close> follows a
  schedule, which may be any list of picks: every interleaving of the calls is the run of
  some schedule.
\<close>

definition sched_step ::
  "'d deploy_env list \<Rightarrow> nat \<Rightarrow> 'd pc list \<times> 'd globals \<Rightarrow> 'd pc list \<times> 'd globals" where
  "sched_step envs i st =
     (case st of (pcs, g) \<Rightarrow>
        if i < length pcs \<and> i < length envs then
          (case Deploy_step (envs ! i) (pcs ! i) g of
             None \<Rightarrow> (pcs, g)
           | Some (pc, g') \<Rightarrow> (pcs[i := pc], g'))
        else (pcs, g))"

definition run ::
  "'d deploy_env list \<Rightarrow> nat list \<Rightarrow> 'd pc list \<times> 'd globals \<Rightarrow> 'd pc list \<times> 'd globals" where
  "run envs schedule st = fold (sched_step envs) schedule st"

text \<open>A call holds the mutex from the return of \<^verbatim>\<open>Lock\<close> to the deferred \<^verbatim>\<open>Unlock\<close>.\<close>

fun holds_lock :: "'d pc \<Rightarrow> bool" where
  "holds_lock Locking = False"
| "holds_lock (Returned r) = False"
| "holds_lock pc = True"

text \<open>
  What holds of the calls and the globals at every moment: the mutex is held exactly when
  one call is between \<^verbatim>\<open>Lock\<close> and \<^verbatim>\<open>Unlock\<close>, and no other call is; a call that has found
  the cache empty still sees it empty; a call that has a deployment to return has the
  cached one.
\<close>

fun past_check :: "'d pc \<Rightarrow> bool" where
  "past_check Getwd = True"
| "past_check (Provisioning dir) = True"
| "past_check (Storing d) = True"
| "past_check pc = False"

fun returns :: "'d pc \<Rightarrow> 'd option" where
  "returns (Unlocking (Inr d)) = Some d"
| "returns (Returned (Inr d)) = Some d"
| "returns pc = None"

definition consistent :: "'d pc list \<Rightarrow> 'd globals \<Rightarrow> bool" where
  "consistent pcs g \<longleftrightarrow>
     (ssMutex g = Some False \<and> (\<forall>j<length pcs. \<not> holds_lock (pcs ! j)) \<or>
      ssMutex g = Some True \<and>
        (\<exists>i<length pcs. holds_lock (pcs ! i) \<and> (\<forall>j<length pcs. j \<noteq> i \<longrightarrow> \<not> holds_lock (pcs ! j)))) \<and>
     (\<forall>j<length pcs. past_check (pcs ! j) \<longrightarrow> ssDeployment g = None) \<and>
     (\<forall>j<length pcs. \<forall>d. returns (pcs ! j) = Some d \<longrightarrow> ssDeployment g = Some d)"

text \<open>Once a deployment is cached, or is about to be, no call provisions any more.\<close>

definition settled :: "'d pc list \<Rightarrow> 'd globals \<Rightarrow> bool" where
  "settled pcs g \<longleftrightarrow> ssDeployment g \<noteq> None \<or> (\<exists>j<length pcs. \<exists>d. pcs ! j = Storing d)"

text \<open>
  Two calls for the examples: one whose provisioning is fatal to its test, one whose
  provisioning returns a deployment; and the globals as \<^verbatim>\<open>TestMain\<close> leaves them.
\<close>

definition failing_call :: "string deploy_env" where
  "failing_call =
     \<lparr>os_Getwd = Inr ''/repo/tests'', filepath_Join = (\<lambda>a b. a @ ''/'' @ b),
      deploy_RunNewDeployment = (\<lambda>dir tcpdump. Inl ''failed to start reverse proxy container'')\<rparr>"

definition working_call :: "string \<Rightarrow> string deploy_env" where
  "working_call name =
     \<lparr>os_Getwd = Inr ''/repo/tests'', filepath_Join = (\<lambda>a b. a @ ''/'' @ b),
      deploy_RunNewDeployment = (\<lambda>dir tcpdump. Inr name)\<rparr>"

definition initial_globals :: "string globals" where
  "initial_globals =
     \<lparr>ssDeployment = None, ssMutex = Some False, config_TCPDump = False, provisionings = []\<rparr>"


section \<open>The rules of the reverse proxy\<close>

text \<open>
  Modelled from the spec: the rule evaluation of the reverse proxy, which is not among
  the files at hand (the tests only push rules to it). A status-override rule has a filter
  over requests, the status to return, the block toggle and an optional match budget, an
  integer count of matches after which the rule disables itself (absent: unlimited).
\<close>

record 'req rule =
  rule_filter :: "'req \<Rightarrow> bool"
  return_status :: nat
  block_request :: bool
  rule_count :: "int option"

datatype treatment = Injected nat bool | PassedThrough

text \<open>
  Modelled from the spec: one request meets the rule. The budget is tested and decremented
  in one atomic step (``an atomic compare-and-decrement, not a read-then-write''), so
  requests that arrive concurrently take this step one after the other, in some order.
  A request that does not match, or that finds the budget exhausted, passes through
  unmodified and leaves the rule as it is.
\<close>

definition handle_request :: "'req rule \<Rightarrow> 'req \<Rightarrow> treatment \<times> 'req rule" where
  "handle_request r req =
     (if rule_filter r req then
        (case rule_count r of
           None \<Rightarrow> (Injected (return_status r) (block_request r), r)
         | Some n \<Rightarrow>
             if 0 < n then (Injected (return_status r) (block_request r), r\<lparr>rule_count := Some (n - 1)\<rparr>)
             else (PassedThrough, r))
      else (PassedThrough, r))"

text \<open>The requests in the order in which they take that step.\<close>

fun serve :: "'req rule \<Rightarrow> 'req list \<Rightarrow> treatment list \<times> 'req rule" where
  "serve r [] = ([], r)"
| "serve r (req # reqs) =
     (case handle_request r req of
        (t, r') \<Rightarrow> (case serve r' reqs of (ts, r'') \<Rightarrow> (t # ts, r'')))"

fun injected :: "treatment \<Rightarrow> bool" where
  "injected (Injected status block) = True"
| "injected PassedThrough = False"


section \<open>The waiter\<close>

text \<open>
  Modelled from the spec: the \<^verbatim>\<open>Waiter\<close> that the tests get from \<^verbatim>\<open>helpers.NewWaiter()\<close> is
  Complement's and not among the files at hand. It is a binary completion flag;
  \<^verbatim>\<open>Finish\<close> marks completion and is idempotent (the first call wins, later calls are
  no-ops).
\<close>

record Waiter =
  finished :: bool

definition NewWaiter :: Waiter where
  "NewWaiter = \<lparr>finished = False\<rparr>"

definition Finish :: "Waiter \<Rightarrow> Waiter" where
  "Finish w = (if finished w then w else w\<lparr>finished := True\<rparr>)"

datatype wait_result = Completed | TimedOut

text \<open>
  Modelled from the spec: \<^verbatim>\<open>Wait(timeout)\<close> blocks until \<^verbatim>\<open>Finish\<close> has been called or the
  timeout elapses, and on timeout reports failure to the caller. Time is counted in
  ticks; \<open>calls\<close> gives, tick by tick, how many times the producers call \<^verbatim>\<open>Finish\<close>
  during that tick (none once the list is over). \<^verbatim>\<open>Wait\<close> returns as soon as the flag is
  set, and with failure when the timeout has run out.
\<close>

fun Wait :: "Waiter \<Rightarrow> nat list \<Rightarrow> nat \<Rightarrow> wait_result \<times> Waiter" where
  "Wait w calls 0 = (if finished w then Completed else TimedOut, w)"
| "Wait w calls (Suc timeout) =
     (if finished w then (Completed, w)
      else case calls of
             [] \<Rightarrow> Wait w [] timeout
           | k # later \<Rightarrow> Wait ((Finish ^^ k) w) later timeout)"


section \<open>Results\<close>

subsection \<open>Closing the mautrix-go client\<close>

text \<open>
  C10. For the mautrix-go client, \<^verbatim>\<open>ForceClose(t)\<close> behaves as \<^verbatim>\<open>Close(t)\<close> on every client:
  both results are equal, and when the helper's close does not panic the only change is
  the crypto helper's state: the wrapped client, the options and the test handle are as
  they were.
\<close>

theorem ForceClose_is_Close:
  "ForceClose hc c t = Close hc c t \<and>
   (\<forall>h' err. hc (cryptoHelper c) = Inr (h', err) \<longrightarrow>
      ForceClose hc c t = Inr (c\<lparr>cryptoHelper := h'\<rparr>, t)) \<and>
   (\<forall>p. hc (cryptoHelper c) = Inl p \<longrightarrow> ForceClose hc c t = Inl p)"
  by (simp add: ForceClose_def Close_def)

theorem ForceClose_is_Close_witness:
  "ForceClose (\<lambda>h::bool. Inr (True, None))
     \<lparr>client = ''cli'', opts = \<lparr>BaseURL = ''http://hs1'', UserID = ''@bob:hs1'', DeviceID = ''D'',
        Password = ''pw'', PersistentStorage = False, SlidingSyncURL = ''''\<rparr>, cryptoHelper = False\<rparr> (0::nat)
   = Inr (\<lparr>client = ''cli'', opts = \<lparr>BaseURL = ''http://hs1'', UserID = ''@bob:hs1'', DeviceID = ''D'',
        Password = ''pw'', PersistentStorage = False, SlidingSyncURL = ''''\<rparr>, cryptoHelper = True\<rparr>, 0)"
  using ForceClose_is_Close [of "\<lambda>h::bool. Inr (True, None)"
     "\<lparr>client = ''cli'', opts = \<lparr>BaseURL = ''http://hs1'', UserID = ''@bob:hs1'', DeviceID = ''D'',
        Password = ''pw'', PersistentStorage = False, SlidingSyncURL = ''''\<rparr>, cryptoHelper = False\<rparr>" "0::nat",
     THEN conjunct2, THEN conjunct1, rule_format, of True None]
  by simp


subsection \<open>The encryption event of a new room\<close>

lemma apply_option_keeps_event:
  assumes "has_encryption_event reqBody"
  shows "\<exists>reqBody'. apply_option option reqBody = Inr reqBody' \<and> has_encryption_event reqBody'"
proof (cases option)
  case (RotationPeriodMsgs numMsgs)
  from assms obtain event where ev: "map_of reqBody ''initial_state'' = Some (VMaps [event])"
      and enc: "is_encryption_event event"
    by (auto simp: has_encryption_event_def split: option.splits go_value.splits list.splits)
  from enc obtain content where c: "map_of event ''content'' = Some (VMap content)"
      and alg: "map_of content ''algorithm'' = Some (VString ''m.megolm.v1.aes-sha2'')"
    by (auto simp: is_encryption_event_def split: option.splits go_value.splits)
  from enc have ty: "map_of event ''type'' = Some (VString ''m.room.encryption'')"
      and sk: "map_of event ''state_key'' = Some (VString '''')"
    by (auto simp: is_encryption_event_def)
  show ?thesis
    using RotationPeriodMsgs ev c alg ty sk
    by (simp add: rotationPeriodMsgs_def has_encryption_event_def is_encryption_event_def update_conv')
next
  case PresetPrivateChat
  with assms show ?thesis
    by (simp add: setPreset_def has_encryption_event_def update_conv')
next
  case PresetTrustedPrivateChat
  with assms show ?thesis
    by (simp add: setPreset_def has_encryption_event_def update_conv')
next
  case PresetPublicChat
  with assms show ?thesis
    by (simp add: setPreset_def has_encryption_event_def update_conv')
next
  case (Invite invite)
  with assms show ?thesis
    by (simp add: has_encryption_event_def update_conv')
qed

lemma apply_options_keep_event:
  "has_encryption_event reqBody \<Longrightarrow>
   \<exists>reqBody'. apply_options options reqBody = Inr reqBody' \<and> has_encryption_event reqBody'"
proof (induction options arbitrary: reqBody)
  case Nil
  then show ?case by simp
next
  case (Cons option options)
  from apply_option_keeps_event [OF Cons.prems, of option]
  obtain b where b: "apply_option option reqBody = Inr b" and inv: "has_encryption_event b"
    by blast
  from Cons.IH [OF inv] show ?case using b by simp
qed

lemma initial_reqBody_has_event: "has_encryption_event (initial_reqBody name)"
  by (simp add: initial_reqBody_def has_encryption_event_def is_encryption_event_def)

text \<open>
  C9. Whatever options of \<^verbatim>\<open>EncRoomOptions\<close> are passed to \<^verbatim>\<open>CreateNewEncryptedRoom\<close>, in
  whatever number and order, no option panics, and the request body handed to
  \<^verbatim>\<open>MustCreateRoom\<close> has an \<^verbatim>\<open>initial_state\<close> whose event has type \<^verbatim>\<open>m.room.encryption\<close>,
  the empty \<^verbatim>\<open>state_key\<close> and a content with algorithm \<^verbatim>\<open>m.megolm.v1.aes-sha2\<close>.
\<close>

theorem CreateNewEncryptedRoom_keeps_encryption_event:
  "\<exists>reqBody. apply_options options (initial_reqBody name) = Inr reqBody \<and>
      CreateNewEncryptedRoom MustCreateRoom name options = Inr (MustCreateRoom reqBody) \<and>
      has_encryption_event reqBody"
proof -
  from apply_options_keep_event [OF initial_reqBody_has_event, of options name]
  obtain b where "apply_options options (initial_reqBody name) = Inr b" "has_encryption_event b"
    by blast
  then show ?thesis by (simp add: CreateNewEncryptedRoom_def)
qed

theorem CreateNewEncryptedRoom_keeps_encryption_event_witness:
  "has_encryption_event
     [(''name'', VString ''T''), (''preset'', VString ''public_chat''), (''invite'', VStrings []),
      (''initial_state'',
         VMaps [[(''type'', VString ''m.room.encryption''), (''state_key'', VString ''''),
                 (''content'', VMap [(''algorithm'', VString ''m.megolm.v1.aes-sha2''),
                                     (''rotation_period_msgs'', VInt 1)])]])]"
proof -
  have run: "apply_options [RotationPeriodMsgs 1, PresetPublicChat] (initial_reqBody ''T'') =
     Inr [(''name'', VString ''T''), (''preset'', VString ''public_chat''), (''invite'', VStrings []),
      (''initial_state'',
         VMaps [[(''type'', VString ''m.room.encryption''), (''state_key'', VString ''''),
                 (''content'', VMap [(''algorithm'', VString ''m.megolm.v1.aes-sha2''),
                                     (''rotation_period_msgs'', VInt 1)])]])]"
    by (simp add: initial_reqBody_def rotationPeriodMsgs_def setPreset_def)
  from CreateNewEncryptedRoom_keeps_encryption_event
         [of "[RotationPeriodMsgs 1, PresetPublicChat]" "''T''" "\<lambda>b. b"]
  show ?thesis unfolding run by simp
qed


subsection \<open>Sequencing of effects and the blocks of Teardown\<close>

lemma and_then_ret [simp]: "and_then (ret x) f = f x"
  by (rule ext) (simp add: and_then_def ret_def)

lemma and_then_emit [simp]: "and_then (emit e) f w = f () (w\<lparr>trace := trace w @ [e]\<rparr>)"
  by (simp add: and_then_def emit_def)

lemma and_then_abort [simp]: "and_then (abort_with a) f = abort_with a"
  by (rule ext) (simp add: and_then_def abort_with_def)

lemma and_then_assoc: "and_then (and_then m f) g = and_then m (\<lambda>x. and_then (f x) g)"
  by (rule ext) (simp add: and_then_def split: prod.splits sum.splits)

lemma terminations_append [simp]: "terminations (xs @ ys) = terminations xs @ terminations ys"
  by (induction xs rule: terminations.induct) auto

lemma files_touched_append [simp]: "files_touched (xs @ ys) = files_touched xs @ files_touched ys"
  by (induction xs rule: files_touched.induct) auto

text \<open>\<^verbatim>\<open>writeContainerLogs\<close> always returns, calls no \<^verbatim>\<open>Terminate\<close> and touches only its file.\<close>

lemma writeContainerLogs_returns:
  "\<exists>err evs fs. writeContainerLogs env c f w = (Inr err, w\<lparr>trace := trace w @ evs, files := fs\<rparr>)
      \<and> terminations evs = [] \<and> set (files_touched evs) \<subseteq> {f}"
proof (cases "os_Create env f")
  case (Some e)
  then have "writeContainerLogs env c f w = (Inr (Some (''os.Create: '' @ e)), w\<lparr>trace := trace w @ [], files := files w\<rparr>)"
    by (simp add: writeContainerLogs_def ret_def)
  then show ?thesis by (metis terminations.simps(1) files_touched.simps(1) empty_subsetI list.set(1))
next
  case None
  show ?thesis
  proof (cases "Logs_result c")
    case (Inl e)
    with None have "writeContainerLogs env c f w =
       (Inr (Some (''container.Logs: '' @ e)), w\<lparr>trace := trace w @ [FileCreated f], files := AList.update f '''' (files w)\<rparr>)"
      by (simp add: writeContainerLogs_def ret_def create_file_def and_then_def)
    moreover have "terminations [FileCreated f] = []" "set (files_touched [FileCreated f]) \<subseteq> {f}" by simp_all
    ultimately show ?thesis by blast
  next
    case (Inr reader)
    obtain written err where cp: "io_Copy env reader = (written, err)" by (cases "io_Copy env reader")
    with None Inr have "writeContainerLogs env c f w =
       (Inr (case err of Some e \<Rightarrow> Some (''io.Copy: '' @ e) | None \<Rightarrow> None),
        w\<lparr>trace := trace w @ [FileCreated f, FileWritten f written],
          files := AList.update f written (AList.update f '''' (files w))\<rparr>)"
      by (simp add: writeContainerLogs_def ret_def create_file_def write_file_def and_then_def split: option.splits)
    moreover have "terminations [FileCreated f, FileWritten f written] = []"
        "set (files_touched [FileCreated f, FileWritten f written]) \<subseteq> {f}" by simp_all
    ultimately show ?thesis by blast
  qed
qed

lemma Terminate_or_exit:
  "and_then (Terminate c) (\<lambda>err. case err of Some e \<Rightarrow> log_Fatalf (msg e) | None \<Rightarrow> ret ()) w =
     (case Terminate_err c of
        None \<Rightarrow> (Inr (), w\<lparr>trace := trace w @ [ContainerTerminate (creq c)]\<rparr>)
      | Some e \<Rightarrow> (Inl (OsExit 1),
                   w\<lparr>trace := trace w @ [ContainerTerminate (creq c), LogPrintf (msg e)]\<rparr>))"
  by (simp add: Terminate_def and_then_assoc log_Fatalf_def ret_def abort_with_def split: option.splits)

lemma postgres_block:
  "\<exists>evs. fst (teardown_postgres d w) = outcome (present (postgres d)) \<and>
     trace (snd (teardown_postgres d w)) = trace w @ evs \<and>
     files (snd (teardown_postgres d w)) = files w \<and>
     terminations evs = map creq (present (postgres d)) \<and> files_touched evs = [] \<and>
     (\<not> all_terminate (present (postgres d)) \<longrightarrow> ends_with_fatal_log evs)"
proof (cases "postgres d")
  case None
  then show ?thesis
    by (simp add: teardown_postgres_def ret_def outcome_def all_terminate_def present_def)
next
  case (Some c)
  then show ?thesis
    by (cases "Terminate_err c")
       (simp_all add: teardown_postgres_def Terminate_or_exit outcome_def all_terminate_def present_def
          ends_with_fatal_log_def)
qed

lemma reverseProxy_block:
  "\<exists>evs. fst (teardown_reverseProxy d w) = outcome (present (reverseProxy d)) \<and>
     trace (snd (teardown_reverseProxy d w)) = trace w @ evs \<and>
     files (snd (teardown_reverseProxy d w)) = files w \<and>
     terminations evs = map creq (present (reverseProxy d)) \<and> files_touched evs = [] \<and>
     (\<not> all_terminate (present (reverseProxy d)) \<longrightarrow> ends_with_fatal_log evs)"
proof (cases "reverseProxy d")
  case None
  then show ?thesis
    by (simp add: teardown_reverseProxy_def ret_def outcome_def all_terminate_def present_def)
next
  case (Some c)
  then show ?thesis
    by (cases "Terminate_err c")
       (simp_all add: teardown_reverseProxy_def Terminate_or_exit outcome_def all_terminate_def present_def
          ends_with_fatal_log_def)
qed

lemma writeLogs_step:
  "\<exists>evs. fst ((if writeLogs then
               and_then (writeContainerLogs env c f) (\<lambda>err.
                 case err of
                   Some e \<Rightarrow> log_Printf (msg e)
                 | None \<Rightarrow> ret ())
             else ret ()) w) = Inr () \<and>
      trace (snd ((if writeLogs then
               and_then (writeContainerLogs env c f) (\<lambda>err.
                 case err of
                   Some e \<Rightarrow> log_Printf (msg e)
                 | None \<Rightarrow> ret ())
             else ret ()) w)) = trace w @ evs \<and> terminations evs = [] \<and> set (files_touched evs) \<subseteq> {f}"
proof (cases writeLogs)
  case False
  then show ?thesis by (simp add: ret_def)
next
  case True
  from writeContainerLogs_returns [of env c f w] obtain err evs fs where
    run: "writeContainerLogs env c f w = (Inr err, w\<lparr>trace := trace w @ evs, files := fs\<rparr>)"
    and t: "terminations evs = []" and ft: "set (files_touched evs) \<subseteq> {f}" by blast
  show ?thesis
  proof (cases err)
    case None
    with True run t ft show ?thesis by (auto simp: and_then_def ret_def)
  next
    case (Some e)
    with True run have "fst ((if writeLogs then
               and_then (writeContainerLogs env c f) (\<lambda>err.
                 case err of
                   Some e \<Rightarrow> log_Printf (msg e)
                 | None \<Rightarrow> ret ())
             else ret ()) w) = Inr ()"
      and "trace (snd ((if writeLogs then
               and_then (writeContainerLogs env c f) (\<lambda>err.
                 case err of
                   Some e \<Rightarrow> log_Printf (msg e)
                 | None \<Rightarrow> ret ())
             else ret ()) w)) = trace w @ (evs @ [LogPrintf (msg e)])"
      by (simp_all add: and_then_def log_Printf_def emit_def)
    moreover have "terminations (evs @ [LogPrintf (msg e)]) = []" 
       "set (files_touched (evs @ [LogPrintf (msg e)])) \<subseteq> {f}" using t ft by simp_all
    ultimately show ?thesis by blast
  qed
qed

lemma slidingSync_block:
  "\<exists>evs. fst (teardown_slidingSync env d wl w) = outcome (present (slidingSync d)) \<and>
     trace (snd (teardown_slidingSync env d wl w)) = trace w @ evs \<and>
     terminations evs = map creq (present (slidingSync d)) \<and>
     set (files_touched evs) \<subseteq> {''container-sliding-sync.log''} \<and>
     (\<not> all_terminate (present (slidingSync d)) \<longrightarrow> ends_with_fatal_log evs)"
proof (cases "slidingSync d")
  case None
  then show ?thesis
    by (simp add: teardown_slidingSync_def ret_def outcome_def all_terminate_def present_def)
next
  case (Some c)
  let ?m = "(if wl then
               and_then (writeContainerLogs env c ''container-sliding-sync.log'') (\<lambda>err.
                 case err of
                   Some e \<Rightarrow> log_Printf (''failed to write sliding sync logs: '' @ e)
                 | None \<Rightarrow> ret ())
             else ret ())"
  from writeLogs_step [of wl env c "''container-sliding-sync.log''" "\<lambda>e. ''failed to write sliding sync logs: '' @ e" w]
  obtain evs where r: "fst (?m w) = Inr ()" and tr: "trace (snd (?m w)) = trace w @ evs"
    and t: "terminations evs = []" and ft: "set (files_touched evs) \<subseteq> {''container-sliding-sync.log''}"
    by blast
  obtain w1 where w1: "?m w = (Inr (), w1)" using r by (cases "?m w") auto
  have eq: "teardown_slidingSync env d wl w =
     (case Terminate_err c of
        None \<Rightarrow> (Inr (), w1\<lparr>trace := trace w1 @ [ContainerTerminate (creq c)]\<rparr>)
      | Some e \<Rightarrow> (Inl (OsExit 1),
                   w1\<lparr>trace := trace w1 @ [ContainerTerminate (creq c),
                                             LogPrintf (''failed to stop sliding sync: '' @ e)]\<rparr>))"
    using Some w1 unfolding teardown_slidingSync_def
    by (simp add: and_then_def [of ?m] Terminate_or_exit del: append.simps)
  from tr w1 have tr1: "trace w1 = trace w @ evs" by simp
  show ?thesis
  proof (cases "Terminate_err c")
    case None
    have "terminations (evs @ [ContainerTerminate (creq c)]) = map creq (present (slidingSync d))"
      "set (files_touched (evs @ [ContainerTerminate (creq c)])) \<subseteq> {''container-sliding-sync.log''}"
      "all_terminate (present (slidingSync d))"
      using t ft Some None by (simp_all add: present_def all_terminate_def)
    moreover have "fst (teardown_slidingSync env d wl w) = outcome (present (slidingSync d))"
       "trace (snd (teardown_slidingSync env d wl w)) = trace w @ (evs @ [ContainerTerminate (creq c)])"
      using None Some tr1 by (simp_all add: eq outcome_def all_terminate_def present_def)
    ultimately show ?thesis by blast
  next
    case (Some e)
    have "terminations (evs @ [ContainerTerminate (creq c), LogPrintf (''failed to stop sliding sync: '' @ e)]) = map creq (present (slidingSync d))"
      "set (files_touched (evs @ [ContainerTerminate (creq c), LogPrintf (''failed to stop sliding sync: '' @ e)])) \<subseteq> {''container-sliding-sync.log''}"
      "ends_with_fatal_log (evs @ [ContainerTerminate (creq c), LogPrintf (''failed to stop sliding sync: '' @ e)])"
      using t ft \<open>slidingSync d = Some c\<close> by (simp_all add: present_def ends_with_fatal_log_def)
    moreover have "fst (teardown_slidingSync env d wl w) = outcome (present (slidingSync d))"
       "trace (snd (teardown_slidingSync env d wl w)) = trace w @ (evs @ [ContainerTerminate (creq c), LogPrintf (''failed to stop sliding sync: '' @ e)])"
      using Some \<open>slidingSync d = Some c\<close> tr1 by (simp_all add: eq outcome_def all_terminate_def present_def)
    ultimately show ?thesis by blast
  qed
qed

lemma performs_seq_ok:
  assumes "performs m1 (Inr x) P1" and "performs m2 r P2"
  shows "performs (and_then m1 (\<lambda>_. m2)) r (\<lambda>evs. \<exists>e1 e2. evs = e1 @ e2 \<and> P1 e1 \<and> P2 e2)"
  unfolding performs_def
proof
  fix w
  from assms(1) obtain e1 where 1: "fst (m1 w) = Inr x" "trace (snd (m1 w)) = trace w @ e1" "P1 e1"
    unfolding performs_def by blast
  from assms(2) obtain e2 where 2: "fst (m2 (snd (m1 w))) = r"
      "trace (snd (m2 (snd (m1 w)))) = trace (snd (m1 w)) @ e2" "P2 e2"
    unfolding performs_def by blast
  have "and_then m1 (\<lambda>_. m2) w = m2 (snd (m1 w))"
    using 1(1) by (cases "m1 w") (simp add: and_then_def)
  with 1 2 show "\<exists>evs. fst (and_then m1 (\<lambda>_. m2) w) = r \<and>
      trace (snd (and_then m1 (\<lambda>_. m2) w)) = trace w @ evs \<and>
      (\<exists>e1 e2. evs = e1 @ e2 \<and> P1 e1 \<and> P2 e2)"
    by (metis append.assoc)
qed

lemma performs_seq_abort:
  assumes "performs m1 (Inl a) P1"
  shows "performs (and_then m1 f) (Inl a) P1"
  unfolding performs_def
proof
  fix w
  from assms obtain e1 where 1: "fst (m1 w) = Inl a" "trace (snd (m1 w)) = trace w @ e1" "P1 e1"
    unfolding performs_def by blast
  have "fst (and_then m1 f w) = Inl a" "snd (and_then m1 f w) = snd (m1 w)"
    using 1(1) by (cases "m1 w"; simp add: and_then_def)+
  with 1 show "\<exists>evs. fst (and_then m1 f w) = Inl a \<and>
      trace (snd (and_then m1 f w)) = trace w @ evs \<and> P1 evs"
    by auto
qed

lemma performs_weaken:
  "performs m r P \<Longrightarrow> (\<And>evs. P evs \<Longrightarrow> Q evs) \<Longrightarrow> performs m r Q"
  unfolding performs_def by blast

lemma performs_result: "performs m r P \<Longrightarrow> fst (m w) = r"
  unfolding performs_def by blast

lemma performs_events:
  "performs m r P \<Longrightarrow> \<exists>evs. trace (snd (m w)) = trace w @ evs \<and> P evs"
  unfolding performs_def by blast

lemma slidingSync_performs:
  "performs (teardown_slidingSync env d wl) (outcome (present (slidingSync d)))
     (\<lambda>evs. terminations evs = map creq (present (slidingSync d)) \<and>
            set (files_touched evs) \<subseteq> {''container-sliding-sync.log''} \<and>
            (\<not> all_terminate (present (slidingSync d)) \<longrightarrow> ends_with_fatal_log evs))"
  unfolding performs_def using slidingSync_block by blast

lemma postgres_performs:
  "performs (teardown_postgres d) (outcome (present (postgres d)))
     (\<lambda>evs. terminations evs = map creq (present (postgres d)) \<and> files_touched evs = [] \<and>
            (\<not> all_terminate (present (postgres d)) \<longrightarrow> ends_with_fatal_log evs))"
  unfolding performs_def using postgres_block by blast

lemma reverseProxy_performs:
  "performs (teardown_reverseProxy d) (outcome (present (reverseProxy d)))
     (\<lambda>evs. terminations evs = map creq (present (reverseProxy d)) \<and> files_touched evs = [] \<and>
            (\<not> all_terminate (present (reverseProxy d)) \<longrightarrow> ends_with_fatal_log evs))"
  unfolding performs_def using reverseProxy_block by blast

lemma tcpdump_performs:
  "performs (teardown_tcpdump env d) (tcpdump_outcome d) (\<lambda>evs. evs = tcpdump_events env d)"
  unfolding performs_def
  by (simp add: teardown_tcpdump_def tcpdump_outcome_def tcpdump_events_def ret_def abort_with_def emit_def
           split: option.splits)

lemma terminations_tcpdump [simp]: "terminations (tcpdump_events env d) = []"
  by (simp add: tcpdump_events_def split: option.splits)

lemma files_touched_tcpdump [simp]: "files_touched (tcpdump_events env d) = []"
  by (simp add: tcpdump_events_def split: option.splits)

lemma outcome_cases: "outcome cs = Inr () \<and> all_terminate cs \<or> outcome cs = Inl (OsExit 1) \<and> \<not> all_terminate cs"
  by (simp add: outcome_def)

lemma until_first_failure_append:
  "until_first_failure (xs @ ys) =
     (if all_terminate xs then xs @ until_first_failure ys else until_first_failure xs)"
  by (induction xs) (auto simp: all_terminate_def)

lemma until_first_failure_present [simp]: "until_first_failure (present x) = present x"
  by (simp add: present_def split: option.splits)

lemma all_terminate_append [simp]: "all_terminate (xs @ ys) \<longleftrightarrow> all_terminate xs \<and> all_terminate ys"
  by (simp add: all_terminate_def)

lemma ends_with_fatal_log_append:
  "ends_with_fatal_log e2 \<Longrightarrow> ends_with_fatal_log (e1 @ e2)"
  by (auto simp: ends_with_fatal_log_def split: list.splits)

lemma Teardown_performs:
  "performs (Teardown env d wl)
     (if all_terminate (owned d) then tcpdump_outcome d else Inl (OsExit 1))
     (\<lambda>evs. terminations evs = map creq (until_first_failure (owned d)) \<and>
            set (files_touched evs) \<subseteq> {''container-sliding-sync.log''} \<and>
            (all_terminate (owned d) \<longrightarrow> (\<exists>pre. evs = pre @ tcpdump_events env d)) \<and>
            (\<not> all_terminate (owned d) \<longrightarrow> ends_with_fatal_log evs))"
proof -
  let ?ss = "present (slidingSync d)" and ?pg = "present (postgres d)" and ?rp = "present (reverseProxy d)"
  note ss = slidingSync_performs [of env d wl]
  note pg = postgres_performs [of d]
  note rp = reverseProxy_performs [of d]
  note tcp = tcpdump_performs [of env d]
  show ?thesis
  proof (cases "all_terminate ?ss")
    case False
    then have o: "outcome ?ss = Inl (OsExit 1)" by (simp add: outcome_def)
    from False have u: "until_first_failure (owned d) = ?ss" "\<not> all_terminate (owned d)"
      by (simp_all add: owned_def until_first_failure_append)
    have r: "(if all_terminate (owned d) then tcpdump_outcome d else Inl (OsExit 1)) = Inl (OsExit 1)"
          using u by simp
        show ?thesis unfolding Teardown_def r
      by (rule performs_weaken [OF performs_seq_abort [OF ss [unfolded o]]]) (simp add: u False)
  next
    case ss_ok: True
    then have o1: "outcome ?ss = Inr ()" by (simp add: outcome_def)
    show ?thesis
    proof (cases "all_terminate ?pg")
      case False
      then have o: "outcome ?pg = Inl (OsExit 1)" by (simp add: outcome_def)
      from False ss_ok have u: "until_first_failure (owned d) = ?ss @ ?pg" "\<not> all_terminate (owned d)"
        by (simp_all add: owned_def until_first_failure_append)
      have r: "(if all_terminate (owned d) then tcpdump_outcome d else Inl (OsExit 1)) = Inl (OsExit 1)"
          using u by simp
        show ?thesis unfolding Teardown_def r
        by (rule performs_weaken [OF performs_seq_ok [OF ss [unfolded o1] performs_seq_abort [OF pg [unfolded o]]]])
           (auto simp: u False intro: ends_with_fatal_log_append)
    next
      case pg_ok: True
      then have o2: "outcome ?pg = Inr ()" by (simp add: outcome_def)
      show ?thesis
      proof (cases "all_terminate ?rp")
        case False
        then have o: "outcome ?rp = Inl (OsExit 1)" by (simp add: outcome_def)
        from False ss_ok pg_ok have u: "until_first_failure (owned d) = ?ss @ ?pg @ ?rp" "\<not> all_terminate (owned d)"
          by (simp_all add: owned_def until_first_failure_append)
        have r: "(if all_terminate (owned d) then tcpdump_outcome d else Inl (OsExit 1)) = Inl (OsExit 1)"
          using u by simp
        show ?thesis unfolding Teardown_def r
          by (rule performs_weaken [OF performs_seq_ok [OF ss [unfolded o1]
                 performs_seq_ok [OF pg [unfolded o2] performs_seq_abort [OF rp [unfolded o]]]]])
             (auto simp: u False intro: ends_with_fatal_log_append)
      next
        case rp_ok: True
        then have o3: "outcome ?rp = Inr ()" by (simp add: outcome_def)
        from rp_ok ss_ok pg_ok have u: "until_first_failure (owned d) = ?ss @ ?pg @ ?rp" "all_terminate (owned d)"
          by (simp_all add: owned_def until_first_failure_append)
        have r: "(if all_terminate (owned d) then tcpdump_outcome d else Inl (OsExit 1)) = tcpdump_outcome d"
          using u by simp
        show ?thesis unfolding Teardown_def r
          by (rule performs_weaken [OF performs_seq_ok [OF ss [unfolded o1]
                 performs_seq_ok [OF pg [unfolded o2] performs_seq_ok [OF rp [unfolded o3] tcp]]]])
             (auto simp: u)
      qed
    qed
  qed
qed


subsection \<open>What a successful provisioning has done\<close>

lemma and_then_Inr:
  "and_then m f w = (Inr y, w') \<longleftrightarrow> (\<exists>x w1. m w = (Inr x, w1) \<and> f x w1 = (Inr y, w'))"
  by (auto simp: and_then_def split: prod.splits sum.splits)

lemma ret_Inr [simp]: "ret x w = (Inr y, w') \<longleftrightarrow> y = x \<and> w' = w"
  by (auto simp: ret_def)

lemma emit_Inr [simp]: "emit e w = (Inr u, w') \<longleftrightarrow> w' = w\<lparr>trace := trace w @ [e]\<rparr>"
  by (auto simp: emit_def)

lemma t_Fatalf_Inr [simp]: "t_Fatalf msg w = (Inr y, w') \<longleftrightarrow> False"
  by (simp add: t_Fatalf_def abort_with_def)

lemma abort_with_Inr [simp]: "abort_with a w = (Inr y, w') \<longleftrightarrow> False"
  by (simp add: abort_with_def)

lemma or_Fatalf_Inr [simp]: "or_Fatalf format r w = (Inr y, w') \<longleftrightarrow> r = Inr y \<and> w' = w"
  by (cases r) (auto simp: or_Fatalf_def)

lemma must_NotError_Inr [simp]: "must_NotError msg r w = (Inr y, w') \<longleftrightarrow> r = Inr y \<and> w' = w"
  by (simp add: must_NotError_def)

lemma GenericContainer_Inr:
  "GenericContainer env ctx req w = (Inr (Inr c), w') \<longleftrightarrow>
     (\<exists>c0. docker_create env req = Inr c0 \<and>
        poll_ready (WaitingFor req) (polls c0) (polls_before_deadline env ctx (WaitingFor req)) \<and>
        c = c0\<lparr>creq := req\<rparr> \<and> w' = w\<lparr>trace := trace w @ [ContainerStarted req]\<rparr>)"
  by (auto simp: GenericContainer_def split: sum.splits)

lemma externalURL_Inr: "externalURL c p w = (Inr u, w') \<Longrightarrow> w' = w"
  by (auto simp: externalURL_def and_then_Inr)

lemma complement_Deploy_t_Inr:
  "complement_Deploy_t env n w = (Inr dep, w') \<longleftrightarrow>
     complement_Deploy env n = Inr dep \<and> w' = w\<lparr>trace := trace w @ [ComplementDeployed n]\<rparr>"
  by (auto simp: complement_Deploy_t_def and_then_Inr)

lemma Listen_Inr:
  "Listen env w = (Inr (Inr port), w') \<longleftrightarrow>
     controller_Listen env = Inr port \<and> w' = w\<lparr>trace := trace w @ [ControllerListening port]\<rparr>"
  by (auto simp: Listen_def split: sum.splits)

lemma BaseURL_Inr:
  "UnauthenticatedClient_BaseURL dep hs w = (Inr u, w') \<longleftrightarrow>
     map_of (BaseURLs dep) hs = Some u \<and> w' = w"
  by (auto simp: UnauthenticatedClient_BaseURL_def split: option.splits)

lemma start_tcpdump_Inr:
  "start_tcpdump env ssURL b1 b2 w = (Inr cmd, w') \<Longrightarrow>
     \<exists>filter pid.
        cmd = Some \<lparr>Args = [''tcpdump'', ''-i'', ''any'', ''-s'', ''0'', filter, ''-w'', ''test.pcap''],
                    Process = Some pid\<rparr> \<and>
        w' = w\<lparr>trace := trace w @
               [CmdStarted [''tcpdump'', ''-i'', ''any'', ''-s'', ''0'', filter, ''-w'', ''test.pcap'']]\<rparr>"
  by (auto simp: start_tcpdump_def parsed_Port_def and_then_Inr Let_def split: option.splits)

lemma WaitingFor_requests [simp]:
  "WaitingFor (reverseProxyRequest networkName port) = ForLog ''listening''"
  "WaitingFor (postgresRequest networkName) = ForExec [''pg_isready'']"
  "WaitingFor (slidingSyncRequest networkName) = ForLog ''listening on''"
  by (simp_all add: reverseProxyRequest_def postgresRequest_def slidingSyncRequest_def)

lemma component_of_requests [simp]:
  "component_of (reverseProxyRequest networkName port) = Some TheReverseProxy"
  "component_of (postgresRequest networkName) = Some TheDatastore"
  "component_of (slidingSyncRequest networkName) = Some TheSyncProxy"
  by (simp_all add: component_of_def reverseProxyRequest_def postgresRequest_def slidingSyncRequest_def)

lemma RunNewDeployment_Inr:
  assumes "RunNewDeployment env shouldTCPDump w = (Inr d, w')"
  shows "\<exists>dep port rp pg ss evs.
     complement_Deploy env 2 = Inr dep \<and> controller_Listen env = Inr port \<and>
     Deployment d = dep \<and> ReverseProxyController d = \<lparr>listenPort = Some port\<rparr> \<and>
     docker_create env (reverseProxyRequest (Network dep) port) = Inr rp \<and>
     docker_create env (postgresRequest (Network dep)) = Inr pg \<and>
     docker_create env (slidingSyncRequest (Network dep)) = Inr ss \<and>
     poll_ready (ForLog ''listening'') (polls rp)
       (polls_before_deadline env Background (ForLog ''listening'')) \<and>
     poll_ready (ForExec [''pg_isready'']) (polls pg)
       (polls_before_deadline env Background (ForExec [''pg_isready''])) \<and>
     poll_ready (ForLog ''listening on'') (polls ss)
       (polls_before_deadline env (WithTimeout 60) (ForLog ''listening on'')) \<and>
     reverseProxy d = Some (rp\<lparr>creq := reverseProxyRequest (Network dep) port\<rparr>) \<and>
     postgres d = Some (pg\<lparr>creq := postgresRequest (Network dep)\<rparr>) \<and>
     slidingSync d = Some (ss\<lparr>creq := slidingSyncRequest (Network dep)\<rparr>) \<and>
     trace w' = trace w @ [ComplementDeployed 2, ControllerListening port,
        ContainerStarted (reverseProxyRequest (Network dep) port),
        ContainerStarted (postgresRequest (Network dep)),
        ContainerStarted (slidingSyncRequest (Network dep))] @ evs \<and>
     files w' = files w \<and>
     (shouldTCPDump \<longrightarrow>
        (\<exists>filter pid.
             tcpdump d = Some \<lparr>Args = [''tcpdump'', ''-i'', ''any'', ''-s'', ''0'', filter,
                                        ''-w'', ''test.pcap''],
                                Process = Some pid\<rparr> \<and>
             evs = [CmdStarted [''tcpdump'', ''-i'', ''any'', ''-s'', ''0'', filter, ''-w'', ''test.pcap'']])) \<and>
     (\<not> shouldTCPDump \<longrightarrow> tcpdump d = None \<and> evs = [])"
  using assms
  by (auto simp: RunNewDeployment_def Let_def and_then_Inr GenericContainer_Inr complement_Deploy_t_Inr
        Listen_Inr BaseURL_Inr split: if_splits dest!: start_tcpdump_Inr externalURL_Inr)

lemma poll_ready_iff:
  "poll_ready strategy obs n \<longleftrightarrow> (\<exists>i<n. i < length obs \<and> ready strategy (obs ! i))"
proof (induction strategy obs n rule: poll_ready.induct)
  case (1 strategy obs)
  show ?case by simp
next
  case (2 strategy n)
  show ?case by simp
next
  case (3 strategy ob obs n)
  show ?case
  proof
    assume "poll_ready strategy (ob # obs) (Suc n)"
    then consider "ready strategy ob" | "poll_ready strategy obs n" by auto
    then show "\<exists>i<Suc n. i < length (ob # obs) \<and> ready strategy ((ob # obs) ! i)"
    proof cases
      case 1
      then show ?thesis by (intro exI [of _ 0]) simp
    next
      case 2
      with 3 obtain i where "i < n" "i < length obs" "ready strategy (obs ! i)" by auto
      then show ?thesis by (intro exI [of _ "Suc i"]) simp
    qed
  next
    assume "\<exists>i<Suc n. i < length (ob # obs) \<and> ready strategy ((ob # obs) ! i)"
    then obtain i where i: "i < Suc n" "i < length (ob # obs)" "ready strategy ((ob # obs) ! i)"
      by blast
    show "poll_ready strategy (ob # obs) (Suc n)"
    proof (cases i)
      case 0
      with i show ?thesis by simp
    next
      case (Suc j)
      with i have "j < n" "j < length obs" "ready strategy (obs ! j)" by auto
      with 3 show ?thesis by auto
    qed
  qed
qed

lemma poll_ready_numeral [simp]:
  "poll_ready strategy [] (numeral k) = False"
  "poll_ready strategy (ob # obs) (numeral k) =
     (ready strategy ob \<or> poll_ready strategy obs (pred_numeral k))"
  by (simp_all add: numeral_eq_Suc)

lemma example_run:
  "RunNewDeployment example_env True empty_world =
     (Inr example_deployment,
      \<lparr>trace = [ComplementDeployed 2, ControllerListening 9000,
                ContainerStarted (reverseProxyRequest ''net'' 9000),
                ContainerStarted (postgresRequest ''net''),
                ContainerStarted (slidingSyncRequest ''net''),
                CmdStarted [''tcpdump'', ''-i'', ''any'', ''-s'', ''0'',
                            ''tcp port 36789 or port 8001 or port 8002'', ''-w'', ''test.pcap'']],
       files = []\<rparr>)"
  by (simp add: RunNewDeployment_def example_env_def empty_world_def example_deployment_def
        complement_Deploy_t_def Listen_def or_Fatalf_def must_NotError_def GenericContainer_def
        externalURL_def MappedPort_def UnauthenticatedClient_BaseURL_def start_tcpdump_def parsed_Port_def
        example_container_def and_then_def ret_def emit_def sublist_code Let_def show_int_def digit_def
        reverseProxyRequest_def postgresRequest_def slidingSyncRequest_def)

lemma example_teardown:
  "Teardown example_env example_deployment True empty_world =
    (Inr (),
     \<lparr>trace = [FileCreated ''container-sliding-sync.log'',
        FileWritten ''container-sliding-sync.log'' ''log of ghcr.io/matrix-org/sliding-sync:v0.99.12'',
        ContainerTerminate (slidingSyncRequest ''net''),
        ContainerTerminate (postgresRequest ''net''),
        ControllerTerminate,
        ContainerTerminate (reverseProxyRequest ''net'' 9000),
        ProcessSignal 4242 ''interrupt'',
        Println ''Sent SIGINT to tcpdump, waiting for it to exit, err= <nil>'',
        ProcessWait 4242,
        Println ''tcpdump finished, err= <nil>''],
      files = [(''container-sliding-sync.log'', ''log of ghcr.io/matrix-org/sliding-sync:v0.99.12'')]\<rparr>)"
  by (simp add: Teardown_def teardown_slidingSync_def teardown_postgres_def teardown_reverseProxy_def
       teardown_tcpdump_def writeContainerLogs_def create_file_def write_file_def Terminate_def
       log_Printf_def log_Fatalf_def show_err_def
       example_env_def empty_world_def example_deployment_def example_container_def
       and_then_def ret_def emit_def abort_with_def slidingSyncRequest_def)

lemma stuck_teardown:
  "Teardown example_env stuck_deployment False empty_world =
    (Inl (OsExit 1),
     \<lparr>trace = [ContainerTerminate (slidingSyncRequest ''net''),
                LogPrintf ''failed to stop sliding sync: timeout''],
      files = []\<rparr>)"
  by (simp add: Teardown_def teardown_slidingSync_def teardown_postgres_def teardown_reverseProxy_def
       teardown_tcpdump_def Terminate_def log_Printf_def log_Fatalf_def show_err_def
       example_env_def empty_world_def example_deployment_def stuck_deployment_def example_container_def
       and_then_def ret_def emit_def abort_with_def slidingSyncRequest_def)

subsection \<open>Teardown and failing terminations\<close>

lemma Teardown_facts:
  "\<exists>evs. fst (Teardown env d wl w) =
            (if all_terminate (owned d) then tcpdump_outcome d else Inl (OsExit 1)) \<and>
     trace (snd (Teardown env d wl w)) = trace w @ evs \<and>
     terminations evs = map creq (until_first_failure (owned d)) \<and>
     set (files_touched evs) \<subseteq> {''container-sliding-sync.log''} \<and>
     (all_terminate (owned d) \<longrightarrow> (\<exists>pre. evs = pre @ tcpdump_events env d)) \<and>
     (\<not> all_terminate (owned d) \<longrightarrow> ends_with_fatal_log evs)"
  using Teardown_performs [of env d wl] unfolding performs_def by blast

lemma owned_stuck:
  "map creq (owned stuck_deployment)
     = [slidingSyncRequest ''net'', postgresRequest ''net'', reverseProxyRequest ''net'' 9000]"
  by (simp add: owned_def present_def stuck_deployment_def example_deployment_def example_container_def)

text \<open>
  C3, as the code has it. \<^verbatim>\<open>Teardown\<close> calls \<^verbatim>\<open>Terminate\<close> on the containers it owns in the
  order sliding sync, postgres, reverse proxy, up to and including the first one whose
  \<^verbatim>\<open>Terminate\<close> fails. Such a failure is logged with \<^verbatim>\<open>log.Fatalf\<close>: the line is the last
  thing that happens and the process exits with status 1, so the containers after it are
  not terminated. When no \<^verbatim>\<open>Terminate\<close> fails, all owned containers are terminated and
  the result is that of stopping the packet capture.
\<close>

theorem Teardown_exits_at_first_failure:
  assumes "Teardown env d writeLogs w = (r, w')"
  shows "\<exists>evs. trace w' = trace w @ evs \<and>
           terminations evs = map creq (until_first_failure (owned d)) \<and>
           (if all_terminate (owned d) then r = tcpdump_outcome d
            else r = Inl (OsExit 1) \<and> ends_with_fatal_log evs)"
  using Teardown_facts [of env d writeLogs w] assms by auto

theorem Teardown_exits_at_first_failure_witness:
  "terminations [ContainerTerminate (slidingSyncRequest ''net''),
                 LogPrintf ''failed to stop sliding sync: timeout'']
     = map creq (until_first_failure (owned stuck_deployment))"
  using Teardown_exits_at_first_failure [OF stuck_teardown]
  by (simp add: empty_world_def)

text \<open>
  C3 as stated fails: a deployment owns three containers and the sliding sync container
  does not terminate. \<^verbatim>\<open>Teardown\<close> ends the process with status 1 and has called
  \<^verbatim>\<open>Terminate\<close> on the sliding sync container only; postgres and the reverse proxy are
  left running.
\<close>

theorem Teardown_fatal_counterexample:
  "fst (Teardown example_env stuck_deployment False empty_world) = Inl (OsExit 1) \<and>
   terminations (trace (snd (Teardown example_env stuck_deployment False empty_world)))
     = [slidingSyncRequest ''net''] \<and>
   map creq (owned stuck_deployment)
     = [slidingSyncRequest ''net'', postgresRequest ''net'', reverseProxyRequest ''net'' 9000]"
  unfolding stuck_teardown owned_stuck by simp

subsection \<open>The order of provisioning\<close>

lemma provisioning_order_CmdStarted [simp]:
  "provisioning_order (es @ [CmdStarted args]) = provisioning_order es"
  by (induction es rule: provisioning_order.induct) (auto split: option.splits)

text \<open>
  C4, as the code has it. A \<^verbatim>\<open>RunNewDeployment\<close> that returns a deployment has provisioned
  the network first, then the reverse proxy, then the datastore (postgres), then the
  sync-aggregation proxy (sliding sync), and each of the three containers was seen ready
  before the deadline: the reverse proxy by the log line \<^verbatim>\<open>listening\<close>, postgres by a
  \<^verbatim>\<open>pg_isready\<close> that exits zero, sliding sync by the log line \<^verbatim>\<open>listening on\<close>.
\<close>

theorem RunNewDeployment_provisions_in_order:
  assumes "RunNewDeployment env shouldTCPDump w = (Inr d, w')"
  shows "\<exists>evs rp pg ss. trace w' = trace w @ evs \<and>
     provisioning_order evs = [TheNetwork, TheReverseProxy, TheDatastore, TheSyncProxy] \<and>
     reverseProxy d = Some rp \<and> postgres d = Some pg \<and> slidingSync d = Some ss \<and>
     WaitingFor (creq rp) = ForLog ''listening'' \<and> ready_within env Background rp \<and>
     WaitingFor (creq pg) = ForExec [''pg_isready''] \<and> ready_within env Background pg \<and>
     WaitingFor (creq ss) = ForLog ''listening on'' \<and> ready_within env (WithTimeout 60) ss"
  using RunNewDeployment_Inr [OF assms]
proof (elim exE conjE)
  fix dep port rp pg ss evs
  assume rp: "reverseProxy d = Some (rp\<lparr>creq := reverseProxyRequest (Network dep) port\<rparr>)"
      "poll_ready (ForLog ''listening'') (polls rp) (polls_before_deadline env Background (ForLog ''listening''))"
    and pg: "postgres d = Some (pg\<lparr>creq := postgresRequest (Network dep)\<rparr>)"
      "poll_ready (ForExec [''pg_isready'']) (polls pg) (polls_before_deadline env Background (ForExec [''pg_isready'']))"
    and ss: "slidingSync d = Some (ss\<lparr>creq := slidingSyncRequest (Network dep)\<rparr>)"
      "poll_ready (ForLog ''listening on'') (polls ss) (polls_before_deadline env (WithTimeout 60) (ForLog ''listening on''))"
    and tr: "trace w' = trace w @ [ComplementDeployed 2, ControllerListening port,
        ContainerStarted (reverseProxyRequest (Network dep) port),
        ContainerStarted (postgresRequest (Network dep)),
        ContainerStarted (slidingSyncRequest (Network dep))] @ evs"
    and on: "shouldTCPDump \<longrightarrow>
        (\<exists>filter pid.
             tcpdump d = Some \<lparr>Args = [''tcpdump'', ''-i'', ''any'', ''-s'', ''0'', filter,
                                        ''-w'', ''test.pcap''],
                                Process = Some pid\<rparr> \<and>
             evs = [CmdStarted [''tcpdump'', ''-i'', ''any'', ''-s'', ''0'', filter, ''-w'', ''test.pcap'']])"
    and off: "\<not> shouldTCPDump \<longrightarrow> tcpdump d = None \<and> evs = []"
  let ?evs = "[ComplementDeployed 2, ControllerListening port,
        ContainerStarted (reverseProxyRequest (Network dep) port),
        ContainerStarted (postgresRequest (Network dep)),
        ContainerStarted (slidingSyncRequest (Network dep))] @ evs"
  have "provisioning_order evs = []"
    using on off provisioning_order_CmdStarted [of "[]"] by (cases shouldTCPDump) auto
  then have order: "provisioning_order ?evs = [TheNetwork, TheReverseProxy, TheDatastore, TheSyncProxy]"
    by simp
  have "ready_within env Background (rp\<lparr>creq := reverseProxyRequest (Network dep) port\<rparr>)"
       "ready_within env Background (pg\<lparr>creq := postgresRequest (Network dep)\<rparr>)"
       "ready_within env (WithTimeout 60) (ss\<lparr>creq := slidingSyncRequest (Network dep)\<rparr>)"
    using rp(2) pg(2) ss(2) by (simp_all add: ready_within_def poll_ready_iff)
  with tr order rp(1) pg(1) ss(1) show ?thesis
    by (intro exI [of _ ?evs]) simp
qed

theorem RunNewDeployment_provisions_in_order_witness:
  "provisioning_order
     [ComplementDeployed 2, ControllerListening 9000,
      ContainerStarted (reverseProxyRequest ''net'' 9000),
      ContainerStarted (postgresRequest ''net''),
      ContainerStarted (slidingSyncRequest ''net''),
      CmdStarted [''tcpdump'', ''-i'', ''any'', ''-s'', ''0'',
                  ''tcp port 36789 or port 8001 or port 8002'', ''-w'', ''test.pcap'']]
   = [TheNetwork, TheReverseProxy, TheDatastore, TheSyncProxy]"
  using RunNewDeployment_provisions_in_order [OF example_run]
  by (auto simp: empty_world_def)

text \<open>
  C4 as stated fails on the order: in a run that succeeds, the reverse proxy is provisioned
  before the datastore, not after it.
\<close>

theorem RunNewDeployment_order_counterexample:
  "fst (RunNewDeployment example_env True empty_world) = Inr example_deployment \<and>
   provisioning_order (trace (snd (RunNewDeployment example_env True empty_world)))
     = [TheNetwork, TheReverseProxy, TheDatastore, TheSyncProxy] \<and>
   provisioning_order (trace (snd (RunNewDeployment example_env True empty_world)))
     \<noteq> [TheNetwork, TheDatastore, TheReverseProxy, TheSyncProxy]"
  unfolding example_run by simp


subsection \<open>The order of teardown\<close>

lemma prefix_until_first_failure: "prefix (until_first_failure cs) cs"
  by (induction cs) auto

lemma until_first_failure_all: "all_terminate cs \<Longrightarrow> until_first_failure cs = cs"
  by (induction cs) (auto simp: all_terminate_def)

lemma started_CmdStarted [simp]: "started (es @ [CmdStarted args]) = started es"
  by (induction es rule: started.induct) auto

text \<open>
  C5, as the code has it. \<^verbatim>\<open>Teardown\<close> calls \<^verbatim>\<open>Terminate\<close> on the containers of a deployment
  made by \<^verbatim>\<open>RunNewDeployment\<close> in the reverse of the order in which they were started:
  the sync-aggregation proxy (sliding sync) first, then the datastore (postgres), then the
  reverse proxy. A teardown that exits early has stopped a prefix of that order.
\<close>

theorem Teardown_reverses_provisioning:
  assumes "RunNewDeployment env shouldTCPDump w = (Inr d, w1)"
    and "Teardown env' d writeLogs w2 = (r, w3)"
  shows "\<exists>started_evs stopped_evs.
      trace w1 = trace w @ started_evs \<and> trace w3 = trace w2 @ stopped_evs \<and>
      prefix (terminations stopped_evs) (rev (started started_evs)) \<and>
      (r = Inr () \<longrightarrow> terminations stopped_evs = rev (started started_evs) \<and>
         teardown_order stopped_evs = [TheSyncProxy, TheDatastore, TheReverseProxy])"
  using RunNewDeployment_Inr [OF assms(1)]
proof (elim exE conjE)
  fix dep port rp pg ss evs
  assume rp: "reverseProxy d = Some (rp\<lparr>creq := reverseProxyRequest (Network dep) port\<rparr>)"
    and pg: "postgres d = Some (pg\<lparr>creq := postgresRequest (Network dep)\<rparr>)"
    and ss: "slidingSync d = Some (ss\<lparr>creq := slidingSyncRequest (Network dep)\<rparr>)"
    and tr: "trace w1 = trace w @ [ComplementDeployed 2, ControllerListening port,
        ContainerStarted (reverseProxyRequest (Network dep) port),
        ContainerStarted (postgresRequest (Network dep)),
        ContainerStarted (slidingSyncRequest (Network dep))] @ evs"
    and on: "shouldTCPDump \<longrightarrow>
        (\<exists>filter pid.
             tcpdump d = Some \<lparr>Args = [''tcpdump'', ''-i'', ''any'', ''-s'', ''0'', filter,
                                        ''-w'', ''test.pcap''],
                                Process = Some pid\<rparr> \<and>
             evs = [CmdStarted [''tcpdump'', ''-i'', ''any'', ''-s'', ''0'', filter, ''-w'', ''test.pcap'']])"
    and off: "\<not> shouldTCPDump \<longrightarrow> tcpdump d = None \<and> evs = []"
  let ?evs = "[ComplementDeployed 2, ControllerListening port,
        ContainerStarted (reverseProxyRequest (Network dep) port),
        ContainerStarted (postgresRequest (Network dep)),
        ContainerStarted (slidingSyncRequest (Network dep))] @ evs"
  have "started evs = []"
    using on off started_CmdStarted [of "[]"] by (cases shouldTCPDump) auto
  then have st: "rev (started ?evs) = [slidingSyncRequest (Network dep), postgresRequest (Network dep),
       reverseProxyRequest (Network dep) port]"
    by simp
  have ow: "map creq (owned d) = rev (started ?evs)"
    unfolding st using rp pg ss by (simp add: owned_def present_def)
  from Teardown_facts [of env' d writeLogs w2] assms(2) obtain stopped where
    t: "trace w3 = trace w2 @ stopped"
    and tms: "terminations stopped = map creq (until_first_failure (owned d))"
    and res: "r = (if all_terminate (owned d) then tcpdump_outcome d else Inl (OsExit 1))"
    by auto
  have p: "prefix (terminations stopped) (rev (started ?evs))"
    unfolding tms ow [symmetric] by (rule map_mono_prefix [OF prefix_until_first_failure])
  have ok: "r = Inr () \<longrightarrow> terminations stopped = rev (started ?evs) \<and>
         teardown_order stopped = [TheSyncProxy, TheDatastore, TheReverseProxy]"
  proof
    assume "r = Inr ()"
    with res have "all_terminate (owned d)" by (auto split: if_splits)
    then have "terminations stopped = rev (started ?evs)"
      using tms ow by (simp add: until_first_failure_all)
    then show "terminations stopped = rev (started ?evs) \<and>
         teardown_order stopped = [TheSyncProxy, TheDatastore, TheReverseProxy]"
      unfolding teardown_order_def st by (simp add: List.map_filter_simps)
  qed
  from tr t p ok show ?thesis by blast
qed

theorem Teardown_reverses_provisioning_witness:
  "teardown_order
     [FileCreated ''container-sliding-sync.log'',
        FileWritten ''container-sliding-sync.log'' ''log of ghcr.io/matrix-org/sliding-sync:v0.99.12'',
        ContainerTerminate (slidingSyncRequest ''net''),
        ContainerTerminate (postgresRequest ''net''),
        ControllerTerminate,
        ContainerTerminate (reverseProxyRequest ''net'' 9000),
        ProcessSignal 4242 ''interrupt'',
        Println ''Sent SIGINT to tcpdump, waiting for it to exit, err= <nil>'',
        ProcessWait 4242,
        Println ''tcpdump finished, err= <nil>'']
   = [TheSyncProxy, TheDatastore, TheReverseProxy]"
  using Teardown_reverses_provisioning [OF example_run example_teardown]
  by (auto simp: empty_world_def)

text \<open>
  C5 as stated fails: in a teardown that returns, the datastore is stopped before the
  reverse proxy, not after it.
\<close>

theorem Teardown_order_counterexample:
  "fst (Teardown example_env example_deployment True empty_world) = Inr () \<and>
   teardown_order (trace (snd (Teardown example_env example_deployment True empty_world)))
     = [TheSyncProxy, TheDatastore, TheReverseProxy] \<and>
   teardown_order (trace (snd (Teardown example_env example_deployment True empty_world)))
     \<noteq> [TheSyncProxy, TheReverseProxy, TheDatastore]"
  unfolding example_teardown by (simp add: teardown_order_def List.map_filter_simps)


subsection \<open>Packet capture\<close>

text \<open>
  Only the last block of \<^verbatim>\<open>Teardown\<close> signals or waits for a process, and it is reached
  only when every owned container has terminated.
\<close>

lemma process_events_append [simp]:
  "process_events (xs @ ys) = process_events xs @ process_events ys"
  by (induction xs rule: process_events.induct) auto

lemma quiet_ret [simp]: "quiet (ret x)"
  by (simp add: quiet_def ret_def)

lemma quiet_abort [simp]: "quiet (abort_with a)"
  by (simp add: quiet_def abort_with_def)

lemma quiet_emit: "process_events [e] = [] \<Longrightarrow> quiet (emit e)"
  by (simp add: quiet_def emit_def)

lemma quiet_and_then: "quiet m \<Longrightarrow> (\<And>x. quiet (f x)) \<Longrightarrow> quiet (and_then m f)"
  unfolding quiet_def
proof
  fix w
  assume m: "\<forall>w. process_events (trace (snd (m w))) = process_events (trace w)"
    and f: "\<And>x. \<forall>w. process_events (trace (snd (f x w))) = process_events (trace w)"
  show "process_events (trace (snd (and_then m f w))) = process_events (trace w)"
  proof (cases "m w")
    case (Pair r w1)
    with m [rule_format, of w] have 1: "process_events (trace w1) = process_events (trace w)" by simp
    show ?thesis
    proof (cases r)
      case (Inl a)
      with Pair 1 show ?thesis by (simp add: and_then_def)
    next
      case (Inr x)
      with Pair 1 f [of x, rule_format, of w1] show ?thesis by (simp add: and_then_def)
    qed
  qed
qed

lemma quiet_log_Printf [simp]: "quiet (log_Printf msg)"
  by (simp add: log_Printf_def quiet_emit)

lemma quiet_log_Fatalf [simp]: "quiet (log_Fatalf msg)"
  by (simp add: log_Fatalf_def quiet_and_then quiet_emit)

lemma quiet_Terminate [simp]: "quiet (Terminate c)"
  by (simp add: Terminate_def quiet_and_then quiet_emit)

lemma quiet_create_file [simp]: "quiet (create_file f)"
  by (simp add: quiet_def create_file_def)

lemma quiet_write_file [simp]: "quiet (write_file f s)"
  by (simp add: quiet_def write_file_def)

lemma quiet_writeContainerLogs [simp]: "quiet (writeContainerLogs env c f)"
  unfolding writeContainerLogs_def
  by (auto intro!: quiet_and_then split: option.splits sum.splits prod.splits)

lemma quiet_slidingSync [simp]: "quiet (teardown_slidingSync env d wl)"
  unfolding teardown_slidingSync_def
  by (auto intro!: quiet_and_then split: option.splits)

lemma quiet_postgres [simp]: "quiet (teardown_postgres d)"
  unfolding teardown_postgres_def
  by (auto intro!: quiet_and_then split: option.splits)

lemma quiet_reverseProxy [simp]: "quiet (teardown_reverseProxy d)"
  unfolding teardown_reverseProxy_def
  by (auto intro!: quiet_and_then quiet_emit split: option.splits)

lemma quiet_containers:
  "quiet (and_then (teardown_slidingSync env d wl) (\<lambda>_.
     and_then (teardown_postgres d) (\<lambda>_. teardown_reverseProxy d)))"
  by (intro quiet_and_then quiet_slidingSync quiet_postgres quiet_reverseProxy)

lemma Teardown_split:
  "Teardown env d wl =
     and_then (and_then (teardown_slidingSync env d wl) (\<lambda>_.
                 and_then (teardown_postgres d) (\<lambda>_. teardown_reverseProxy d)))
       (\<lambda>_. teardown_tcpdump env d)"
  by (simp add: Teardown_def and_then_assoc)

lemma tcpdump_block:
  "fst (teardown_tcpdump env d w) = tcpdump_outcome d \<and>
   trace (snd (teardown_tcpdump env d w)) = trace w @ tcpdump_events env d"
  using tcpdump_performs [of env d] unfolding performs_def by auto

lemma tcpdump_outcome_not_exit: "tcpdump_outcome d \<noteq> Inl (OsExit 1)"
  by (simp add: tcpdump_outcome_def split: option.splits)

lemma blocks_ignore_tcpdump:
  "teardown_slidingSync env (d\<lparr>tcpdump := None\<rparr>) wl = teardown_slidingSync env d wl"
  "teardown_postgres (d\<lparr>tcpdump := None\<rparr>) = teardown_postgres d"
  "teardown_reverseProxy (d\<lparr>tcpdump := None\<rparr>) = teardown_reverseProxy d"
  "teardown_tcpdump env (d\<lparr>tcpdump := None\<rparr>) = ret ()"
  "owned (d\<lparr>tcpdump := None\<rparr>) = owned d"
  by (simp_all add: teardown_slidingSync_def teardown_postgres_def teardown_reverseProxy_def
        teardown_tcpdump_def owned_def)

lemma containers_outcome:
  "fst (and_then (teardown_slidingSync env d wl) (\<lambda>_.
          and_then (teardown_postgres d) (\<lambda>_. teardown_reverseProxy d)) w) = outcome (owned d)"
proof -
  let ?c = "and_then (teardown_slidingSync env d wl) (\<lambda>_.
                 and_then (teardown_postgres d) (\<lambda>_. teardown_reverseProxy d))"
  let ?d = "d\<lparr>tcpdump := None\<rparr>"
  have "Teardown env ?d wl = and_then ?c (\<lambda>_. ret ())"
    unfolding Teardown_split blocks_ignore_tcpdump ..
  then have "fst (Teardown env ?d wl w) = fst (?c w)"
    by (cases "?c w"; cases "fst (?c w)") (auto simp: and_then_def ret_def)
  moreover from Teardown_facts [of env ?d wl w] have
    "fst (Teardown env ?d wl w) = (if all_terminate (owned d) then Inr () else Inl (OsExit 1))"
    by (simp add: blocks_ignore_tcpdump tcpdump_outcome_def)
  ultimately show ?thesis by (simp add: outcome_def)
qed

lemma Teardown_process_events:
  "process_events (trace (snd (Teardown env d wl w))) =
     process_events (trace w) @
       (if all_terminate (owned d) then process_events (tcpdump_events env d) else [])"
proof -
  let ?c = "and_then (teardown_slidingSync env d wl) (\<lambda>_.
                 and_then (teardown_postgres d) (\<lambda>_. teardown_reverseProxy d))"
  obtain r w1 where c: "?c w = (r, w1)" by (cases "?c w")
  from quiet_containers [of env d wl] c have q: "process_events (trace w1) = process_events (trace w)"
    unfolding quiet_def by (metis snd_conv)
  from containers_outcome [of env d wl w] c have r: "r = outcome (owned d)" by simp
  show ?thesis
  proof (cases "all_terminate (owned d)")
    case False
    with r have "r = Inl (OsExit 1)" by (simp add: outcome_def)
    with c have "Teardown env d wl w = (Inl (OsExit 1), w1)"
      unfolding Teardown_split by (simp add: and_then_def)
    with False q show ?thesis by simp
  next
    case True
    with r have "r = Inr ()" by (simp add: outcome_def)
    with c have "Teardown env d wl w = teardown_tcpdump env d w1"
      unfolding Teardown_split by (simp add: and_then_def)
    with True q tcpdump_block [of env d w1] show ?thesis by simp
  qed
qed


lemma stuck_run:
  "RunNewDeployment stuck_env True empty_world =
     (Inr stuck_deployment,
      \<lparr>trace = [ComplementDeployed 2, ControllerListening 9000,
                ContainerStarted (reverseProxyRequest ''net'' 9000),
                ContainerStarted (postgresRequest ''net''),
                ContainerStarted (slidingSyncRequest ''net''),
                CmdStarted [''tcpdump'', ''-i'', ''any'', ''-s'', ''0'',
                            ''tcp port 36789 or port 8001 or port 8002'', ''-w'', ''test.pcap'']],
       files = []\<rparr>)"
  by (simp add: RunNewDeployment_def stuck_env_def example_env_def empty_world_def
        stuck_deployment_def example_deployment_def
        complement_Deploy_t_def Listen_def or_Fatalf_def must_NotError_def GenericContainer_def
        externalURL_def MappedPort_def UnauthenticatedClient_BaseURL_def start_tcpdump_def parsed_Port_def
        example_container_def and_then_def ret_def emit_def sublist_code Let_def show_int_def digit_def
        component_of_def
        reverseProxyRequest_def postgresRequest_def slidingSyncRequest_def)

lemma stuck_env_teardown:
  "Teardown stuck_env stuck_deployment False empty_world =
    (Inl (OsExit 1),
     \<lparr>trace = [ContainerTerminate (slidingSyncRequest ''net''),
                LogPrintf ''failed to stop sliding sync: timeout''],
      files = []\<rparr>)"
  by (simp add: Teardown_def teardown_slidingSync_def teardown_postgres_def teardown_reverseProxy_def
       teardown_tcpdump_def Terminate_def log_Printf_def log_Fatalf_def show_err_def
       stuck_env_def example_env_def empty_world_def example_deployment_def stuck_deployment_def
       example_container_def and_then_def ret_def emit_def abort_with_def slidingSyncRequest_def)

text \<open>
  C8, as the code has it. When \<^verbatim>\<open>RunNewDeployment\<close> is called with packet capture enabled
  and returns a deployment, it has started \<^verbatim>\<open>tcpdump\<close> writing to the fixed file
  \<^verbatim>\<open>test.pcap\<close>. A \<^verbatim>\<open>Teardown\<close> of that deployment stops the capture only when no owned
  container fails to terminate: then it returns, and it ends by sending the process the
  interrupt signal and then waiting for it to exit (the two errors are only printed), and
  these are the only signal and wait of the teardown. When a termination fails,
  \<^verbatim>\<open>log.Fatalf\<close> prints its line and exits the process with status 1 before the capture
  block: the capture is neither signalled nor waited for.
\<close>

theorem tcpdump_stopped_unless_teardown_exits:
  assumes "RunNewDeployment env True w = (Inr d, w1)"
    and "Teardown env' d writeLogs w2 = (r, w3)"
  shows "\<exists>filter pid evs.
      tcpdump d = Some \<lparr>Args = [''tcpdump'', ''-i'', ''any'', ''-s'', ''0'', filter, ''-w'', ''test.pcap''],
                         Process = Some pid\<rparr> \<and>
      CmdStarted [''tcpdump'', ''-i'', ''any'', ''-s'', ''0'', filter, ''-w'', ''test.pcap'']
        \<in> set (trace w1) \<and>
      trace w3 = trace w2 @ evs \<and>
      (if all_terminate (owned d)
       then r = Inr () \<and>
            (\<exists>pre. evs = pre @
               [ProcessSignal pid ''interrupt'',
                Println (''Sent SIGINT to tcpdump, waiting for it to exit, err= ''
                           @ show_err (process_Signal env')),
                ProcessWait pid,
                Println (''tcpdump finished, err= '' @ show_err (process_Wait env'))]) \<and>
            process_events evs = [ProcessSignal pid ''interrupt'', ProcessWait pid]
       else r = Inl (OsExit 1) \<and> ends_with_fatal_log evs \<and> process_events evs = [])"
  using RunNewDeployment_Inr [OF assms(1)]
proof (elim exE conjE)
  fix dep port rp pg ss evs0
  assume tr: "trace w1 = trace w @ [ComplementDeployed 2, ControllerListening port,
        ContainerStarted (reverseProxyRequest (Network dep) port),
        ContainerStarted (postgresRequest (Network dep)),
        ContainerStarted (slidingSyncRequest (Network dep))] @ evs0"
    and on: "True \<longrightarrow>
        (\<exists>filter pid.
             tcpdump d = Some \<lparr>Args = [''tcpdump'', ''-i'', ''any'', ''-s'', ''0'', filter,
                                        ''-w'', ''test.pcap''],
                                Process = Some pid\<rparr> \<and>
             evs0 = [CmdStarted [''tcpdump'', ''-i'', ''any'', ''-s'', ''0'', filter, ''-w'', ''test.pcap'']])"
  from on obtain filter pid where
    cmd: "tcpdump d = Some \<lparr>Args = [''tcpdump'', ''-i'', ''any'', ''-s'', ''0'', filter,
                                        ''-w'', ''test.pcap''], Process = Some pid\<rparr>"
    and evs0: "evs0 = [CmdStarted [''tcpdump'', ''-i'', ''any'', ''-s'', ''0'', filter, ''-w'', ''test.pcap'']]"
    by blast
  from tr evs0 have st: "CmdStarted [''tcpdump'', ''-i'', ''any'', ''-s'', ''0'', filter, ''-w'', ''test.pcap'']
        \<in> set (trace w1)" by simp
  let ?stop = "[ProcessSignal pid ''interrupt'',
                Println (''Sent SIGINT to tcpdump, waiting for it to exit, err= ''
                           @ show_err (process_Signal env')),
                ProcessWait pid,
                Println (''tcpdump finished, err= '' @ show_err (process_Wait env'))]"
  from cmd have ev: "tcpdump_events env' d = ?stop"
    by (simp add: tcpdump_events_def del: append.simps)
  from cmd have oc: "tcpdump_outcome d = Inr ()" by (simp add: tcpdump_outcome_def)
  from Teardown_facts [of env' d writeLogs w2] assms(2) obtain evs where
    t: "trace w3 = trace w2 @ evs"
    and res: "r = (if all_terminate (owned d) then tcpdump_outcome d else Inl (OsExit 1))"
    and tcp: "all_terminate (owned d) \<longrightarrow> (\<exists>pre. evs = pre @ tcpdump_events env' d)"
    and fl: "\<not> all_terminate (owned d) \<longrightarrow> ends_with_fatal_log evs"
    by auto
  from Teardown_process_events [of env' d writeLogs w2] assms(2) t have
    pe: "process_events evs = (if all_terminate (owned d) then process_events (tcpdump_events env' d) else [])"
    by simp
  have "if all_terminate (owned d)
       then r = Inr () \<and> (\<exists>pre. evs = pre @ ?stop) \<and>
            process_events evs = [ProcessSignal pid ''interrupt'', ProcessWait pid]
       else r = Inl (OsExit 1) \<and> ends_with_fatal_log evs \<and> process_events evs = []"
  proof (cases "all_terminate (owned d)")
    case True
    with res oc have "r = Inr ()" by simp
    moreover from True tcp ev have "\<exists>pre. evs = pre @ ?stop" by simp
    moreover from True pe have "process_events evs = [ProcessSignal pid ''interrupt'', ProcessWait pid]"
      unfolding ev by simp
    ultimately show ?thesis using True by simp
  next
    case False
    with res pe fl show ?thesis by simp
  qed
  with cmd st t show ?thesis by blast
qed

theorem tcpdump_stopped_unless_teardown_exits_witness:
  "process_events
     [FileCreated ''container-sliding-sync.log'',
        FileWritten ''container-sliding-sync.log'' ''log of ghcr.io/matrix-org/sliding-sync:v0.99.12'',
        ContainerTerminate (slidingSyncRequest ''net''),
        ContainerTerminate (postgresRequest ''net''),
        ControllerTerminate,
        ContainerTerminate (reverseProxyRequest ''net'' 9000),
        ProcessSignal 4242 ''interrupt'',
        Println ''Sent SIGINT to tcpdump, waiting for it to exit, err= <nil>'',
        ProcessWait 4242,
        Println ''tcpdump finished, err= <nil>'']
   = [ProcessSignal 4242 ''interrupt'', ProcessWait 4242]"
proof -
  have ok: "all_terminate (owned example_deployment)"
    by (simp add: all_terminate_def owned_def present_def example_deployment_def example_container_def)
  from tcpdump_stopped_unless_teardown_exits [OF example_run example_teardown] ok
  show ?thesis by (auto simp: empty_world_def example_deployment_def)
qed

text \<open>
  C8 as stated fails: with the sliding sync container refusing to terminate, a deployment
  started with packet capture is torn down without any signal to the capture process,
  which is left running.
\<close>

theorem tcpdump_left_running_counterexample:
  "fst (RunNewDeployment stuck_env True empty_world) = Inr stuck_deployment \<and>
   tcpdump stuck_deployment
     = Some \<lparr>Args = [''tcpdump'', ''-i'', ''any'', ''-s'', ''0'',
                      ''tcp port 36789 or port 8001 or port 8002'', ''-w'', ''test.pcap''],
             Process = Some 4242\<rparr> \<and>
   fst (Teardown stuck_env stuck_deployment False empty_world) = Inl (OsExit 1) \<and>
   trace (snd (Teardown stuck_env stuck_deployment False empty_world))
     = [ContainerTerminate (slidingSyncRequest ''net''),
        LogPrintf ''failed to stop sliding sync: timeout''] \<and>
   process_events (trace (snd (Teardown stuck_env stuck_deployment False empty_world))) = []"
  unfolding stuck_run stuck_env_teardown
  by (simp add: stuck_deployment_def example_deployment_def)


subsection \<open>Writing the logs\<close>

lemma tcpdump_keeps_files: "files (snd (teardown_tcpdump env d w)) = files w"
  by (simp add: teardown_tcpdump_def ret_def abort_with_def emit_def split: option.splits)

lemma and_then_files:
  assumes "\<And>w. files (snd (m w)) = files w" and "\<And>x w. files (snd (f x w)) = files w"
  shows "files (snd (and_then m f w)) = files w"
proof (cases "m w")
  case (Pair r w1)
  with assms(1) [of w] have "files w1 = files w" by simp
  with Pair assms(2) show ?thesis by (cases r) (simp_all add: and_then_def)
qed

lemma postgres_keeps_files: "files (snd (teardown_postgres d w)) = files w"
  using postgres_block [of d w] by blast

lemma reverseProxy_keeps_files: "files (snd (teardown_reverseProxy d w)) = files w"
  using reverseProxy_block [of d w] by blast

lemma Teardown_files:
  "files (snd (Teardown env d wl w)) = files (snd (teardown_slidingSync env d wl w))"
proof -
  let ?rest = "and_then (teardown_postgres d) (\<lambda>_. and_then (teardown_reverseProxy d) (\<lambda>_. teardown_tcpdump env d))"
  have rest: "\<And>w. files (snd (?rest w)) = files w"
    by (intro and_then_files postgres_keeps_files reverseProxy_keeps_files tcpdump_keeps_files)
  show ?thesis
  proof (cases "teardown_slidingSync env d wl w")
    case (Pair r w1)
    then show ?thesis using rest [of w1] by (cases r) (simp_all add: Teardown_def and_then_def)
  qed
qed

lemma and_then_extends:
  assumes "\<And>w. \<exists>evs. trace (snd (m w)) = trace w @ evs"
    and "\<And>x w. \<exists>evs. trace (snd (f x w)) = trace w @ evs"
  shows "\<exists>evs. trace (snd (and_then m f w)) = trace w @ evs"
proof (cases "m w")
  case (Pair r w1)
  from assms(1) [of w] Pair obtain e1 where e1: "trace w1 = trace w @ e1" by auto
  show ?thesis
  proof (cases r)
    case (Inl a)
    with Pair e1 show ?thesis by (simp add: and_then_def)
  next
    case (Inr x)
    from assms(2) [of x w1] obtain e2 where "trace (snd (f x w1)) = trace w1 @ e2" by blast
    with Pair Inr e1 show ?thesis by (simp add: and_then_def)
  qed
qed

lemma postgres_extends: "\<exists>evs. trace (snd (teardown_postgres d w)) = trace w @ evs"
  using postgres_block [of d w] by blast

lemma reverseProxy_extends: "\<exists>evs. trace (snd (teardown_reverseProxy d w)) = trace w @ evs"
  using reverseProxy_block [of d w] by blast

lemma tcpdump_extends: "\<exists>evs. trace (snd (teardown_tcpdump env d w)) = trace w @ evs"
  using tcpdump_performs [of env d] unfolding performs_def by blast

lemma Teardown_trace_after_slidingSync:
  "\<exists>rest. trace (snd (Teardown env d wl w)) = trace (snd (teardown_slidingSync env d wl w)) @ rest"
proof -
  let ?rest = "and_then (teardown_postgres d) (\<lambda>_. and_then (teardown_reverseProxy d) (\<lambda>_. teardown_tcpdump env d))"
  have rest: "\<And>w. \<exists>evs. trace (snd (?rest w)) = trace w @ evs"
    by (intro and_then_extends postgres_extends reverseProxy_extends tcpdump_extends)
  show ?thesis
  proof (cases "teardown_slidingSync env d wl w")
    case (Pair r w1)
    then show ?thesis using rest [of w1] by (cases r) (simp_all add: Teardown_def and_then_def)
  qed
qed

lemma slidingSync_logs_written:
  assumes "slidingSync d = Some c" and "os_Create env ''container-sliding-sync.log'' = None"
    and "Logs_result c = Inr out" and "io_Copy env out = (out, None)"
  shows "\<exists>rest. trace (snd (teardown_slidingSync env d True w)) =
            trace w @ [FileCreated ''container-sliding-sync.log'',
                       FileWritten ''container-sliding-sync.log'' out,
                       ContainerTerminate (creq c)] @ rest \<and>
         map_of (files (snd (teardown_slidingSync env d True w))) ''container-sliding-sync.log'' = Some out"
  using assms
  by (cases "Terminate_err c")
     (simp_all add: teardown_slidingSync_def writeContainerLogs_def create_file_def write_file_def
        Terminate_def log_Fatalf_def and_then_def ret_def emit_def abort_with_def update_conv')

lemma terminations_mem: "req \<in> set (terminations evs) \<Longrightarrow> ContainerTerminate req \<in> set evs"
  by (induction evs rule: terminations.induct) auto

lemma until_first_failure_hd: "until_first_failure (c # cs) = c # tl (until_first_failure (c # cs))"
  by simp

lemma slidingSync_create_failed:
  assumes "slidingSync d = Some c" and "os_Create env ''container-sliding-sync.log'' = Some e"
  shows "\<exists>rest. trace (snd (teardown_slidingSync env d True w)) =
            trace w @ [LogPrintf (''failed to write sliding sync logs: os.Create: '' @ e),
                       ContainerTerminate (creq c)] @ rest"
  using assms
  by (cases "Terminate_err c")
     (simp_all add: teardown_slidingSync_def writeContainerLogs_def log_Printf_def
        Terminate_def log_Fatalf_def and_then_def ret_def emit_def abort_with_def)

lemma slidingSync_read_failed:
  assumes "slidingSync d = Some c" and "os_Create env ''container-sliding-sync.log'' = None"
    and "Logs_result c = Inl e"
  shows "\<exists>rest. trace (snd (teardown_slidingSync env d True w)) =
            trace w @ [FileCreated ''container-sliding-sync.log'',
                       LogPrintf (''failed to write sliding sync logs: container.Logs: '' @ e),
                       ContainerTerminate (creq c)] @ rest"
  using assms
  by (cases "Terminate_err c")
     (simp_all add: teardown_slidingSync_def writeContainerLogs_def create_file_def log_Printf_def
        Terminate_def log_Fatalf_def and_then_def ret_def emit_def abort_with_def)

lemma slidingSync_copy_failed:
  assumes "slidingSync d = Some c" and "os_Create env ''container-sliding-sync.log'' = None"
    and "Logs_result c = Inr out" and "io_Copy env out = (written, Some e)"
  shows "\<exists>rest. trace (snd (teardown_slidingSync env d True w)) =
            trace w @ [FileCreated ''container-sliding-sync.log'',
                       FileWritten ''container-sliding-sync.log'' written,
                       LogPrintf (''failed to write sliding sync logs: io.Copy: '' @ e),
                       ContainerTerminate (creq c)] @ rest"
  using assms
  by (cases "Terminate_err c")
     (simp_all add: teardown_slidingSync_def writeContainerLogs_def create_file_def write_file_def
        log_Printf_def Terminate_def log_Fatalf_def and_then_def ret_def emit_def abort_with_def)

lemma Teardown_starts_with:
  assumes "\<exists>rest. trace (snd (teardown_slidingSync env d wl w)) = trace w @ es @ rest"
    and "Teardown env d wl w = (r, w')" and "trace w' = trace w @ evs"
  shows "\<exists>rest. evs = es @ rest"
proof -
  from assms(1) obtain r1 where
    1: "trace (snd (teardown_slidingSync env d wl w)) = trace w @ es @ r1" by blast
  from Teardown_trace_after_slidingSync [of env d wl w] obtain r2 where
    2: "trace (snd (Teardown env d wl w)) = trace (snd (teardown_slidingSync env d wl w)) @ r2"
    by blast
  from 1 2 assms(2,3) have "evs = es @ (r1 @ r2)" by simp
  then show ?thesis by blast
qed

lemma readonly_teardown:
  "Teardown readonly_env example_deployment True empty_world =
    (Inr (),
     \<lparr>trace = [LogPrintf ''failed to write sliding sync logs: os.Create: permission denied'',
        ContainerTerminate (slidingSyncRequest ''net''),
        ContainerTerminate (postgresRequest ''net''),
        ControllerTerminate,
        ContainerTerminate (reverseProxyRequest ''net'' 9000),
        ProcessSignal 4242 ''interrupt'',
        Println ''Sent SIGINT to tcpdump, waiting for it to exit, err= <nil>'',
        ProcessWait 4242,
        Println ''tcpdump finished, err= <nil>''],
      files = []\<rparr>)"
  by (simp add: Teardown_def teardown_slidingSync_def teardown_postgres_def teardown_reverseProxy_def
       teardown_tcpdump_def writeContainerLogs_def create_file_def write_file_def Terminate_def
       log_Printf_def log_Fatalf_def show_err_def readonly_env_def
       example_env_def empty_world_def example_deployment_def example_container_def
       and_then_def ret_def emit_def abort_with_def
       slidingSyncRequest_def postgresRequest_def reverseProxyRequest_def)

text \<open>
  C6, as the code has it. With \<^verbatim>\<open>writeLogs\<close> true, \<^verbatim>\<open>Teardown\<close> touches one file only,
  \<^verbatim>\<open>container-sliding-sync.log\<close>: no output of postgres or of the reverse proxy is
  written. When the file can be created and the log read and copied, the log of the
  sliding sync container is in that file before the container is terminated. When creating
  the file, reading the log or copying it fails, the error is logged with \<^verbatim>\<open>log.Printf\<close> as
  \<^verbatim>\<open>failed to write sliding sync logs:\<close> followed by the failing call and its error, and
  the termination of the sliding sync container is the next effect. Whether writing the
  log fails or not, the sliding sync container is still terminated, and the result of
  \<^verbatim>\<open>Teardown\<close> and the containers it terminates are those of a teardown without logs.
\<close>

theorem Teardown_writes_sliding_sync_logs_only:
  assumes "Teardown env d True w = (r, w')"
  shows "\<exists>evs. trace w' = trace w @ evs \<and>
     set (files_touched evs) \<subseteq> {''container-sliding-sync.log''} \<and>
     r = fst (Teardown env d False w) \<and>
     terminations evs = terminations (drop (length (trace w)) (trace (snd (Teardown env d False w)))) \<and>
     (\<forall>c. slidingSync d = Some c \<longrightarrow> ContainerTerminate (creq c) \<in> set evs) \<and>
     (\<forall>c out. slidingSync d = Some c \<and> os_Create env ''container-sliding-sync.log'' = None \<and>
         Logs_result c = Inr out \<and> io_Copy env out = (out, None) \<longrightarrow>
         (\<exists>rest. evs = [FileCreated ''container-sliding-sync.log'',
                         FileWritten ''container-sliding-sync.log'' out,
                         ContainerTerminate (creq c)] @ rest) \<and>
         map_of (files w') ''container-sliding-sync.log'' = Some out) \<and>
     (\<forall>c e. slidingSync d = Some c \<and> os_Create env ''container-sliding-sync.log'' = Some e \<longrightarrow>
         (\<exists>rest. evs = [LogPrintf (''failed to write sliding sync logs: os.Create: '' @ e),
                         ContainerTerminate (creq c)] @ rest)) \<and>
     (\<forall>c e. slidingSync d = Some c \<and> os_Create env ''container-sliding-sync.log'' = None \<and>
         Logs_result c = Inl e \<longrightarrow>
         (\<exists>rest. evs = [FileCreated ''container-sliding-sync.log'',
                         LogPrintf (''failed to write sliding sync logs: container.Logs: '' @ e),
                         ContainerTerminate (creq c)] @ rest)) \<and>
     (\<forall>c out written e. slidingSync d = Some c \<and> os_Create env ''container-sliding-sync.log'' = None \<and>
         Logs_result c = Inr out \<and> io_Copy env out = (written, Some e) \<longrightarrow>
         (\<exists>rest. evs = [FileCreated ''container-sliding-sync.log'',
                         FileWritten ''container-sliding-sync.log'' written,
                         LogPrintf (''failed to write sliding sync logs: io.Copy: '' @ e),
                         ContainerTerminate (creq c)] @ rest))"
proof -
  from Teardown_facts [of env d True w] assms obtain evs where
    t: "trace w' = trace w @ evs"
    and res: "r = (if all_terminate (owned d) then tcpdump_outcome d else Inl (OsExit 1))"
    and tms: "terminations evs = map creq (until_first_failure (owned d))"
    and ft: "set (files_touched evs) \<subseteq> {''container-sliding-sync.log''}"
    by auto
  from Teardown_facts [of env d False w] obtain evs0 where
    t0: "trace (snd (Teardown env d False w)) = trace w @ evs0"
    and res0: "fst (Teardown env d False w) = (if all_terminate (owned d) then tcpdump_outcome d else Inl (OsExit 1))"
    and tms0: "terminations evs0 = map creq (until_first_failure (owned d))"
    by auto
  have same: "r = fst (Teardown env d False w)"
     "terminations evs = terminations (drop (length (trace w)) (trace (snd (Teardown env d False w))))"
    using res res0 tms tms0 t0 by simp_all
  have still: "\<forall>c. slidingSync d = Some c \<longrightarrow> ContainerTerminate (creq c) \<in> set evs"
  proof (intro allI impI)
    fix c assume "slidingSync d = Some c"
    then have "owned d = c # present (postgres d) @ present (reverseProxy d)"
      by (simp add: owned_def present_def)
    then have "creq c \<in> set (terminations evs)"
      unfolding tms by simp
    then show "ContainerTerminate (creq c) \<in> set evs" by (rule terminations_mem)
  qed
  have written: "\<forall>c out. slidingSync d = Some c \<and> os_Create env ''container-sliding-sync.log'' = None \<and>
         Logs_result c = Inr out \<and> io_Copy env out = (out, None) \<longrightarrow>
         (\<exists>rest. evs = [FileCreated ''container-sliding-sync.log'',
                         FileWritten ''container-sliding-sync.log'' out,
                         ContainerTerminate (creq c)] @ rest) \<and>
         map_of (files w') ''container-sliding-sync.log'' = Some out"
  proof (intro allI impI, elim conjE)
    fix c out
    assume a: "slidingSync d = Some c" "os_Create env ''container-sliding-sync.log'' = None"
      "Logs_result c = Inr out" "io_Copy env out = (out, None)"
    from slidingSync_logs_written [OF a, of w] have
      1: "\<exists>rest. trace (snd (teardown_slidingSync env d True w)) =
            trace w @ [FileCreated ''container-sliding-sync.log'',
                       FileWritten ''container-sliding-sync.log'' out,
                       ContainerTerminate (creq c)] @ rest"
      and 2: "map_of (files (snd (teardown_slidingSync env d True w))) ''container-sliding-sync.log'' = Some out"
      by blast+
    from 2 assms have "map_of (files w') ''container-sliding-sync.log'' = Some out"
      using Teardown_files [of env d True w] by simp
    with Teardown_starts_with [OF 1 assms t]
    show "(\<exists>rest. evs = [FileCreated ''container-sliding-sync.log'',
                         FileWritten ''container-sliding-sync.log'' out,
                         ContainerTerminate (creq c)] @ rest) \<and>
         map_of (files w') ''container-sliding-sync.log'' = Some out"
      by blast
  qed
  have create: "\<forall>c e. slidingSync d = Some c \<and> os_Create env ''container-sliding-sync.log'' = Some e \<longrightarrow>
         (\<exists>rest. evs = [LogPrintf (''failed to write sliding sync logs: os.Create: '' @ e),
                         ContainerTerminate (creq c)] @ rest)"
  proof (intro allI impI, elim conjE)
    fix c e
    assume a: "slidingSync d = Some c" "os_Create env ''container-sliding-sync.log'' = Some e"
    show "\<exists>rest. evs = [LogPrintf (''failed to write sliding sync logs: os.Create: '' @ e),
                         ContainerTerminate (creq c)] @ rest"
      by (rule Teardown_starts_with [OF slidingSync_create_failed [OF a] assms t])
  qed
  have read: "\<forall>c e. slidingSync d = Some c \<and> os_Create env ''container-sliding-sync.log'' = None \<and>
         Logs_result c = Inl e \<longrightarrow>
         (\<exists>rest. evs = [FileCreated ''container-sliding-sync.log'',
                         LogPrintf (''failed to write sliding sync logs: container.Logs: '' @ e),
                         ContainerTerminate (creq c)] @ rest)"
  proof (intro allI impI, elim conjE)
    fix c e
    assume a: "slidingSync d = Some c" "os_Create env ''container-sliding-sync.log'' = None"
      "Logs_result c = Inl e"
    show "\<exists>rest. evs = [FileCreated ''container-sliding-sync.log'',
                         LogPrintf (''failed to write sliding sync logs: container.Logs: '' @ e),
                         ContainerTerminate (creq c)] @ rest"
      by (rule Teardown_starts_with [OF slidingSync_read_failed [OF a] assms t])
  qed
  have copy: "\<forall>c out written e. slidingSync d = Some c \<and> os_Create env ''container-sliding-sync.log'' = None \<and>
         Logs_result c = Inr out \<and> io_Copy env out = (written, Some e) \<longrightarrow>
         (\<exists>rest. evs = [FileCreated ''container-sliding-sync.log'',
                         FileWritten ''container-sliding-sync.log'' written,
                         LogPrintf (''failed to write sliding sync logs: io.Copy: '' @ e),
                         ContainerTerminate (creq c)] @ rest)"
  proof (intro allI impI, elim conjE)
    fix c out written e
    assume a: "slidingSync d = Some c" "os_Create env ''container-sliding-sync.log'' = None"
      "Logs_result c = Inr out" "io_Copy env out = (written, Some e)"
    show "\<exists>rest. evs = [FileCreated ''container-sliding-sync.log'',
                         FileWritten ''container-sliding-sync.log'' written,
                         LogPrintf (''failed to write sliding sync logs: io.Copy: '' @ e),
                         ContainerTerminate (creq c)] @ rest"
      by (rule Teardown_starts_with [OF slidingSync_copy_failed [OF a] assms t])
  qed
  from t ft same still written create read copy show ?thesis by blast
qed

theorem Teardown_writes_sliding_sync_logs_only_witness:
  "fst (Teardown example_env example_deployment False empty_world) = Inr () \<and>
   ContainerTerminate (slidingSyncRequest ''net'')
     \<in> set (trace (snd (Teardown example_env example_deployment True empty_world))) \<and>
   fst (Teardown readonly_env example_deployment False empty_world) = Inr () \<and>
   (\<exists>rest. trace (snd (Teardown readonly_env example_deployment True empty_world)) =
      [LogPrintf ''failed to write sliding sync logs: os.Create: permission denied'',
       ContainerTerminate (slidingSyncRequest ''net'')] @ rest)"
proof -
  have ss: "slidingSync example_deployment = Some (example_container (slidingSyncRequest ''net''))"
    by (simp add: example_deployment_def)
  have ro: "os_Create readonly_env ''container-sliding-sync.log'' = Some ''permission denied''"
    by (simp add: readonly_env_def)
  from Teardown_writes_sliding_sync_logs_only [OF example_teardown] obtain evs where
    1: "trace \<lparr>trace = [FileCreated ''container-sliding-sync.log'',
        FileWritten ''container-sliding-sync.log'' ''log of ghcr.io/matrix-org/sliding-sync:v0.99.12'',
        ContainerTerminate (slidingSyncRequest ''net''),
        ContainerTerminate (postgresRequest ''net''),
        ControllerTerminate,
        ContainerTerminate (reverseProxyRequest ''net'' 9000),
        ProcessSignal 4242 ''interrupt'',
        Println ''Sent SIGINT to tcpdump, waiting for it to exit, err= <nil>'',
        ProcessWait 4242,
        Println ''tcpdump finished, err= <nil>''],
      files = [(''container-sliding-sync.log'', ''log of ghcr.io/matrix-org/sliding-sync:v0.99.12'')]\<rparr>
        = trace empty_world @ evs"
    and 2: "Inr () = fst (Teardown example_env example_deployment False empty_world)"
    and 3: "\<forall>c. slidingSync example_deployment = Some c \<longrightarrow> ContainerTerminate (creq c) \<in> set evs"
    by blast
  from 3 ss have a: "ContainerTerminate (slidingSyncRequest ''net'') \<in> set evs"
    by (auto simp: example_container_def)
  from 1 have b: "trace (snd (Teardown example_env example_deployment True empty_world)) = evs"
    unfolding example_teardown by (simp add: empty_world_def)
  from Teardown_writes_sliding_sync_logs_only [OF readonly_teardown] obtain evs' where
    4: "trace \<lparr>trace = [LogPrintf ''failed to write sliding sync logs: os.Create: permission denied'',
        ContainerTerminate (slidingSyncRequest ''net''),
        ContainerTerminate (postgresRequest ''net''),
        ControllerTerminate,
        ContainerTerminate (reverseProxyRequest ''net'' 9000),
        ProcessSignal 4242 ''interrupt'',
        Println ''Sent SIGINT to tcpdump, waiting for it to exit, err= <nil>'',
        ProcessWait 4242,
        Println ''tcpdump finished, err= <nil>''],
      files = []\<rparr> = trace empty_world @ evs'"
    and 5: "Inr () = fst (Teardown readonly_env example_deployment False empty_world)"
    and 6: "\<forall>c e. slidingSync example_deployment = Some c \<and>
               os_Create readonly_env ''container-sliding-sync.log'' = Some e \<longrightarrow>
         (\<exists>rest. evs' = [LogPrintf (''failed to write sliding sync logs: os.Create: '' @ e),
                         ContainerTerminate (creq c)] @ rest)"
    by blast
  from 6 ss ro have c: "\<exists>rest. evs' = [LogPrintf (''failed to write sliding sync logs: os.Create: '' @ ''permission denied''),
                         ContainerTerminate (creq (example_container (slidingSyncRequest ''net'')))] @ rest"
    by blast
  from 4 have d: "trace (snd (Teardown readonly_env example_deployment True empty_world)) = evs'"
    unfolding readonly_teardown by (simp add: empty_world_def)
  from c d have e: "\<exists>rest. trace (snd (Teardown readonly_env example_deployment True empty_world)) =
      [LogPrintf ''failed to write sliding sync logs: os.Create: permission denied'',
       ContainerTerminate (slidingSyncRequest ''net'')] @ rest"
    by (simp add: example_container_def)
  from a b e 2 5 show ?thesis by simp
qed

text \<open>
  C6 as stated fails: the deployment owns three containers, each with a log, and after a
  \<^verbatim>\<open>Teardown\<close> with \<^verbatim>\<open>writeLogs\<close> true the only file is the log of sliding sync.
\<close>

theorem Teardown_logs_counterexample:
  "fst (Teardown example_env example_deployment True empty_world) = Inr () \<and>
   map creq (owned example_deployment)
     = [slidingSyncRequest ''net'', postgresRequest ''net'', reverseProxyRequest ''net'' 9000] \<and>
   files (snd (Teardown example_env example_deployment True empty_world))
     = [(''container-sliding-sync.log'', ''log of ghcr.io/matrix-org/sliding-sync:v0.99.12'')] \<and>
   files_touched (trace (snd (Teardown example_env example_deployment True empty_world)))
     = [''container-sliding-sync.log'', ''container-sliding-sync.log''] \<and>
   Logs_result (example_container (postgresRequest ''net'')) = Inr ''log of postgres:13-alpine''"
  unfolding example_teardown
  by (simp add: owned_def present_def example_deployment_def example_container_def postgresRequest_def)


subsection \<open>The cached deployment\<close>

lemma run_Nil [simp]: "run envs [] st = st"
  by (simp add: run_def)

lemma run_Cons [simp]: "run envs (i # s) st = run envs s (sched_step envs i st)"
  by (simp add: run_def)

lemma run_append: "run envs (s1 @ s2) st = run envs s2 (run envs s1 st)"
  by (simp add: run_def)

lemma sched_step_cases:
  "sched_step envs i (pcs, g) = (pcs, g) \<or>
   i < length pcs \<and> i < length envs \<and>
     (\<exists>pc g'. Deploy_step (envs ! i) (pcs ! i) g = Some (pc, g') \<and>
              sched_step envs i (pcs, g) = (pcs[i := pc], g'))"
  by (auto simp: sched_step_def split: option.splits)

lemma past_check_holds_lock: "past_check pc \<Longrightarrow> holds_lock pc"
  by (cases pc) simp_all

lemma consistent_mutex:
  "consistent pcs g \<Longrightarrow> ssMutex g = Some False \<or> ssMutex g = Some True"
  unfolding consistent_def by blast

lemma consistent_held:
  "consistent pcs g \<Longrightarrow> i < length pcs \<Longrightarrow> holds_lock (pcs ! i) \<Longrightarrow> ssMutex g = Some True"
  unfolding consistent_def by blast

lemma consistent_others:
  assumes "consistent pcs g" and "i < length pcs" and "holds_lock (pcs ! i) \<or> ssMutex g = Some False"
    and "j < length pcs" and "j \<noteq> i"
  shows "\<not> holds_lock (pcs ! j)"
proof -
  from assms(1) have
    "ssMutex g = Some False \<and> (\<forall>j<length pcs. \<not> holds_lock (pcs ! j)) \<or>
      ssMutex g = Some True \<and>
        (\<exists>i<length pcs. holds_lock (pcs ! i) \<and> (\<forall>j<length pcs. j \<noteq> i \<longrightarrow> \<not> holds_lock (pcs ! j)))"
    unfolding consistent_def by blast
  then show ?thesis
  proof (elim disjE conjE exE)
    assume "\<forall>j<length pcs. \<not> holds_lock (pcs ! j)"
    with assms(4) show ?thesis by blast
  next
    fix k
    assume t: "ssMutex g = Some True" and k: "k < length pcs" "holds_lock (pcs ! k)"
      and o: "\<forall>j<length pcs. j \<noteq> k \<longrightarrow> \<not> holds_lock (pcs ! j)"
    from t assms(3) have "holds_lock (pcs ! i)" by simp
    with o assms(2) have "i = k" by blast
    with o assms(4,5) show ?thesis by blast
  qed
qed

lemma consistent_empty:
  "consistent pcs g \<Longrightarrow> j < length pcs \<Longrightarrow> past_check (pcs ! j) \<Longrightarrow> ssDeployment g = None"
  unfolding consistent_def by blast

lemma consistent_cached:
  "consistent pcs g \<Longrightarrow> j < length pcs \<Longrightarrow> returns (pcs ! j) = Some d \<Longrightarrow> ssDeployment g = Some d"
  unfolding consistent_def by blast


text \<open>One statement of a call that holds the mutex, or finds it free.\<close>

lemma Deploy_step_facts:
  assumes "Deploy_step env pc g = Some (pc', g')"
    and "ssMutex g = Some (holds_lock pc)"
    and "past_check pc \<longrightarrow> ssDeployment g = None"
    and "\<forall>d. returns pc = Some d \<longrightarrow> ssDeployment g = Some d"
  shows "ssMutex g' = Some (holds_lock pc') \<and>
         (past_check pc' \<longrightarrow> ssDeployment g' = None) \<and>
         (\<forall>d. returns pc' = Some d \<longrightarrow> ssDeployment g' = Some d) \<and>
         (ssDeployment g' = ssDeployment g \<or> ssDeployment g = None \<and> (\<exists>d. pc = Storing d)) \<and>
         (provisionings g' = provisionings g \<or> (\<exists>dir. pc = Provisioning dir)) \<and>
         ((\<exists>d. pc = Storing d) \<longrightarrow> ssDeployment g' \<noteq> None)"
proof (cases pc)
  case Locking
  with assms show ?thesis by (auto split: option.splits bool.splits)
next
  case Checking
  with assms show ?thesis by (auto split: option.splits)
next
  case Getwd
  with assms show ?thesis by (auto split: sum.splits)
next
  case (Provisioning dir)
  with assms show ?thesis by (auto simp: Let_def split: sum.splits)
next
  case (Storing d)
  with assms show ?thesis by auto
next
  case (Unlocking r)
  with assms show ?thesis by (cases r) auto
next
  case (Returned r)
  with assms show ?thesis by simp
qed


lemma consistent_update:
  assumes "i < length pcs"
    and "\<forall>j<length pcs. j \<noteq> i \<longrightarrow> \<not> holds_lock (pcs ! j)"
    and "ssMutex g' = Some (holds_lock pc')"
    and "past_check pc' \<longrightarrow> ssDeployment g' = None"
    and "\<forall>d. returns pc' = Some d \<longrightarrow> ssDeployment g' = Some d"
    and "\<forall>j<length pcs. \<forall>d. j \<noteq> i \<longrightarrow> returns (pcs ! j) = Some d \<longrightarrow> ssDeployment g' = Some d"
  shows "consistent (pcs[i := pc']) g'"
proof -
  let ?pcs = "pcs[i := pc']"
  have len: "length ?pcs = length pcs" by simp
  have at: "?pcs ! i = pc'" using assms(1) by simp
  have other: "\<And>j. j < length pcs \<Longrightarrow> j \<noteq> i \<Longrightarrow> ?pcs ! j = pcs ! j" by simp
  have free: "\<forall>j<length ?pcs. j \<noteq> i \<longrightarrow> \<not> holds_lock (?pcs ! j)"
    using assms(2) other by simp
  have 1: "ssMutex g' = Some False \<and> (\<forall>j<length ?pcs. \<not> holds_lock (?pcs ! j)) \<or>
    ssMutex g' = Some True \<and>
    (\<exists>k<length ?pcs. holds_lock (?pcs ! k) \<and> (\<forall>j<length ?pcs. j \<noteq> k \<longrightarrow> \<not> holds_lock (?pcs ! j)))"
  proof (cases "holds_lock pc'")
    case True
    with assms(1,3) at free have "ssMutex g' = Some True \<and> i < length ?pcs \<and>
        holds_lock (?pcs ! i) \<and> (\<forall>j<length ?pcs. j \<noteq> i \<longrightarrow> \<not> holds_lock (?pcs ! j))"
      by simp
    then show ?thesis by blast
  next
    case False
    have "\<forall>j<length ?pcs. \<not> holds_lock (?pcs ! j)"
    proof (intro allI impI)
      fix j assume "j < length ?pcs"
      with free False at show "\<not> holds_lock (?pcs ! j)" by (cases "j = i") auto
    qed
    with assms(3) False show ?thesis by simp
  qed
  have 2: "\<forall>j<length ?pcs. past_check (?pcs ! j) \<longrightarrow> ssDeployment g' = None"
  proof (intro allI impI)
    fix j assume j: "j < length ?pcs" "past_check (?pcs ! j)"
    show "ssDeployment g' = None"
    proof (cases "j = i")
      case True
      with j at assms(4) show ?thesis by simp
    next
      case False
      with free j(1) have "\<not> holds_lock (?pcs ! j)" by blast
      with past_check_holds_lock [OF j(2)] show ?thesis by simp
    qed
  qed
  have 3: "\<forall>j<length ?pcs. \<forall>d. returns (?pcs ! j) = Some d \<longrightarrow> ssDeployment g' = Some d"
  proof (intro allI impI)
    fix j d assume j: "j < length ?pcs" "returns (?pcs ! j) = Some d"
    show "ssDeployment g' = Some d"
    proof (cases "j = i")
      case True
      with j at assms(5) show ?thesis by simp
    next
      case False
      with j other [of j] have "returns (pcs ! j) = Some d" by simp
      with assms(6) j(1) False show ?thesis by simp
    qed
  qed
  from 1 2 3 show ?thesis unfolding consistent_def by blast
qed

lemma moving_call:
  assumes "consistent pcs g" and "i < length pcs"
    and "Deploy_step env (pcs ! i) g = Some (pc', g')"
  shows "ssMutex g = Some (holds_lock (pcs ! i))"
    and "\<forall>j<length pcs. j \<noteq> i \<longrightarrow> \<not> holds_lock (pcs ! j)"
proof -
  show m: "ssMutex g = Some (holds_lock (pcs ! i))"
  proof (cases "holds_lock (pcs ! i)")
    case True
    with consistent_held [OF assms(1,2)] show ?thesis by simp
  next
    case False
    with assms(3) have l: "pcs ! i = Locking" by (cases "pcs ! i") simp_all
    from consistent_mutex [OF assms(1)] show ?thesis
    proof
      assume "ssMutex g = Some False"
      with l show ?thesis by simp
    next
      assume "ssMutex g = Some True"
      with l assms(3) show ?thesis by simp
    qed
  qed
  then have "holds_lock (pcs ! i) \<or> ssMutex g = Some False" by (cases "holds_lock (pcs ! i)") simp_all
  with consistent_others [OF assms(1,2)] show "\<forall>j<length pcs. j \<noteq> i \<longrightarrow> \<not> holds_lock (pcs ! j)"
    by blast
qed

lemma consistent_step:
  assumes "consistent pcs g" and "sched_step envs i (pcs, g) = (pcs', g')"
  shows "consistent pcs' g'"
  using sched_step_cases [of envs i pcs g]
proof (elim disjE conjE exE)
  assume "sched_step envs i (pcs, g) = (pcs, g)"
  with assms show ?thesis by simp
next
  fix pc g1
  assume i: "i < length pcs"
    and st: "Deploy_step (envs ! i) (pcs ! i) g = Some (pc, g1)"
    and eq: "sched_step envs i (pcs, g) = (pcs[i := pc], g1)"
  note mv = moving_call [OF assms(1) i st]
  have e: "past_check (pcs ! i) \<longrightarrow> ssDeployment g = None"
    using consistent_empty [OF assms(1) i] by blast
  have c: "\<forall>d. returns (pcs ! i) = Some d \<longrightarrow> ssDeployment g = Some d"
    using consistent_cached [OF assms(1) i] by blast
  from Deploy_step_facts [OF st mv(1) e c] have
    f1: "ssMutex g1 = Some (holds_lock pc)"
    and f2: "past_check pc \<longrightarrow> ssDeployment g1 = None"
    and f3: "\<forall>d. returns pc = Some d \<longrightarrow> ssDeployment g1 = Some d"
    and f4: "ssDeployment g1 = ssDeployment g \<or> ssDeployment g = None \<and> (\<exists>d. pcs ! i = Storing d)"
    by blast+
  have others: "\<forall>j<length pcs. \<forall>d. j \<noteq> i \<longrightarrow> returns (pcs ! j) = Some d \<longrightarrow> ssDeployment g1 = Some d"
  proof (intro allI impI)
    fix j d assume j: "j < length pcs" "j \<noteq> i" "returns (pcs ! j) = Some d"
    from consistent_cached [OF assms(1) j(1) j(3)] have "ssDeployment g = Some d" .
    with f4 show "ssDeployment g1 = Some d" by auto
  qed
  have "consistent (pcs[i := pc]) g1"
    by (rule consistent_update [OF i mv(2) f1 f2 f3 others])
  with eq assms(2) show ?thesis by simp
qed

lemma consistent_run:
  "consistent pcs g \<Longrightarrow> run envs s (pcs, g) = (pcs', g') \<Longrightarrow> consistent pcs' g'"
proof (induction s arbitrary: pcs g)
  case Nil
  then show ?case by simp
next
  case (Cons i s)
  obtain pcs1 g1 where st: "sched_step envs i (pcs, g) = (pcs1, g1)"
    by (cases "sched_step envs i (pcs, g)")
  from Cons.prems(2) st have "run envs s (pcs1, g1) = (pcs', g')" by simp
  from Cons.IH [OF consistent_step [OF Cons.prems(1) st] this] show ?case .
qed

lemma consistent_initial:
  "ssMutex g = Some False \<Longrightarrow> consistent (replicate n Locking) g"
  by (simp add: consistent_def)

lemma settled_step:
  assumes "consistent pcs g" and "settled pcs g" and "sched_step envs i (pcs, g) = (pcs', g')"
  shows "settled pcs' g' \<and> provisionings g' = provisionings g \<and>
      (ssDeployment g \<noteq> None \<longrightarrow> ssDeployment g' = ssDeployment g)"
  using sched_step_cases [of envs i pcs g]
proof (elim disjE conjE exE)
  assume "sched_step envs i (pcs, g) = (pcs, g)"
  with assms show ?thesis by simp
next
  fix pc g1
  assume i: "i < length pcs"
    and st: "Deploy_step (envs ! i) (pcs ! i) g = Some (pc, g1)"
    and eq: "sched_step envs i (pcs, g) = (pcs[i := pc], g1)"
  note mv = moving_call [OF assms(1) i st]
  have e: "past_check (pcs ! i) \<longrightarrow> ssDeployment g = None"
    using consistent_empty [OF assms(1) i] by blast
  have c: "\<forall>d. returns (pcs ! i) = Some d \<longrightarrow> ssDeployment g = Some d"
    using consistent_cached [OF assms(1) i] by blast
  from Deploy_step_facts [OF st mv(1) e c] have
    f4: "ssDeployment g1 = ssDeployment g \<or> ssDeployment g = None \<and> (\<exists>d. pcs ! i = Storing d)"
    and f5: "provisionings g1 = provisionings g \<or> (\<exists>dir. pcs ! i = Provisioning dir)"
    and f6: "(\<exists>d. pcs ! i = Storing d) \<longrightarrow> ssDeployment g1 \<noteq> None"
    by blast+
  have noprov: "\<not> (\<exists>dir. pcs ! i = Provisioning dir)"
  proof
    assume "\<exists>dir. pcs ! i = Provisioning dir"
    then obtain dir where p: "pcs ! i = Provisioning dir" by blast
    with e have "ssDeployment g = None" by simp
    with assms(2) obtain j d where j: "j < length pcs" "pcs ! j = Storing d"
      unfolding settled_def by blast
    with p have "j \<noteq> i" by auto
    with mv(2) j show False by auto
  qed
  with f5 have 1: "provisionings g1 = provisionings g" by blast
  from f4 have 2: "ssDeployment g \<noteq> None \<longrightarrow> ssDeployment g1 = ssDeployment g" by auto
  have 3: "settled (pcs[i := pc]) g1"
  proof (cases "ssDeployment g")
    case (Some d)
    with 2 show ?thesis by (simp add: settled_def)
  next
    case None
    with assms(2) obtain j d where j: "j < length pcs" "pcs ! j = Storing d"
      unfolding settled_def by blast
    show ?thesis
    proof (cases "j = i")
      case True
      with j f6 show ?thesis by (simp add: settled_def)
    next
      case False
      with j i have "j < length (pcs[i := pc]) \<and> pcs[i := pc] ! j = Storing d" by simp
      then show ?thesis unfolding settled_def by blast
    qed
  qed
  from 1 2 3 eq assms(3) show ?thesis by simp
qed

lemma settled_run:
  "consistent pcs g \<Longrightarrow> settled pcs g \<Longrightarrow> run envs s (pcs, g) = (pcs', g') \<Longrightarrow>
   provisionings g' = provisionings g \<and> (ssDeployment g \<noteq> None \<longrightarrow> ssDeployment g' = ssDeployment g)"
proof (induction s arbitrary: pcs g)
  case Nil
  then show ?case by simp
next
  case (Cons i s)
  obtain pcs1 g1 where st: "sched_step envs i (pcs, g) = (pcs1, g1)"
    by (cases "sched_step envs i (pcs, g)")
  note c = consistent_step [OF Cons.prems(1) st]
  from settled_step [OF Cons.prems(1,2) st] have
    s1: "settled pcs1 g1" and s2: "provisionings g1 = provisionings g"
    and s3: "ssDeployment g \<noteq> None \<longrightarrow> ssDeployment g1 = ssDeployment g"
    by blast+
  from Cons.prems(3) st have "run envs s (pcs1, g1) = (pcs', g')" by simp
  from Cons.IH [OF c s1 this] s2 s3 show ?case by auto
qed


lemma length_run: "run envs s (pcs, g) = (pcs', g') \<Longrightarrow> length pcs' = length pcs"
proof (induction s arbitrary: pcs g)
  case Nil
  then show ?case by simp
next
  case (Cons i s)
  obtain pcs1 g1 where st: "sched_step envs i (pcs, g) = (pcs1, g1)"
    by (cases "sched_step envs i (pcs, g)")
  from sched_step_cases [of envs i pcs g] st have "length pcs1 = length pcs" by auto
  with Cons st show ?case by simp
qed

lemma solo_run:
  assumes "ssMutex g = Some False" and "i < length envs" and "i < length pcs" and "pcs ! i = Locking"
  shows "run envs (replicate 6 i) (pcs, g) =
           (pcs[i := Returned (fst (Deploy_locked (envs ! i) g))], snd (Deploy_locked (envs ! i) g))"
proof -
  have six: "replicate 6 i = [i, i, i, i, i, i]" by (simp add: eval_nat_numeral)
  have free: "g\<lparr>ssMutex := Some False\<rparr> = g" using assms(1) by simp
  show ?thesis
  proof (cases "ssDeployment g")
    case (Some d)
    with assms free show ?thesis
      unfolding six by (simp add: sched_step_def Deploy_locked_def)
  next
    case None
    show ?thesis
    proof (cases "os_Getwd (envs ! i)")
      case (Inl err)
      with None assms free show ?thesis
        unfolding six by (simp add: sched_step_def Deploy_locked_def)
    next
      case (Inr wd)
      show ?thesis
      proof (cases "deploy_RunNewDeployment (envs ! i) (filepath_Join (envs ! i) wd ''mitmproxy_addons'') (config_TCPDump g)")
        case (Inl e)
        have "g\<lparr>provisionings := provisionings g @ [(filepath_Join (envs ! i) wd ''mitmproxy_addons'', config_TCPDump g)],
                ssMutex := Some False\<rparr>
              = g\<lparr>provisionings := provisionings g @ [(filepath_Join (envs ! i) wd ''mitmproxy_addons'', config_TCPDump g)]\<rparr>"
          using assms(1) by simp
        with Inl Inr None assms show ?thesis
          unfolding six by (simp add: sched_step_def Deploy_locked_def Let_def)
      next
        case r: (Inr d)
        have "g\<lparr>provisionings := provisionings g @ [(filepath_Join (envs ! i) wd ''mitmproxy_addons'', config_TCPDump g)],
                ssDeployment := Some d, ssMutex := Some False\<rparr>
              = g\<lparr>provisionings := provisionings g @ [(filepath_Join (envs ! i) wd ''mitmproxy_addons'', config_TCPDump g)],
                ssDeployment := Some d\<rparr>"
          using assms(1) by simp
        with r Inr None assms show ?thesis
          unfolding six by (simp add: sched_step_def Deploy_locked_def Let_def)
      qed
    qed
  qed
qed

text \<open>
  C1, as the code has it. In a test process whose mutex \<^verbatim>\<open>TestMain\<close> has made, take any
  number of calls of \<^verbatim>\<open>Deploy\<close> and any interleaving of their statements, observed at two
  moments, the second no earlier than the first. At most one call is between \<^verbatim>\<open>Lock\<close> and
  \<^verbatim>\<open>Unlock\<close>, and the mutex is held exactly when one is. Every call that has returned a
  deployment has returned the cached one. A cached deployment is never replaced. From the
  moment a deployment is cached, or a provisioning has returned one that is about to be
  cached, no call provisions anything. A call that starts when the mutex is free and runs
  without interruption does what the body of \<^verbatim>\<open>Deploy\<close> says and releases the mutex: it
  returns the cached deployment; or, with nothing cached, it provisions, caches and returns
  the new deployment; or it is fatal to its test, on \<^verbatim>\<open>os.Getwd\<close> or in the provisioning,
  and caches nothing.
\<close>

theorem Deploy_caches_once_under_lock:
  assumes "ssMutex g0 = Some False"
    and "run envs s1 (replicate (length envs) Locking, g0) = (pcs1, g1)"
    and "run envs s2 (pcs1, g1) = (pcs2, g2)"
  shows "length pcs2 = length envs \<and>
     (\<forall>i<length pcs2. \<forall>j<length pcs2. holds_lock (pcs2 ! i) \<and> holds_lock (pcs2 ! j) \<longrightarrow> i = j) \<and>
     ssMutex g2 = Some (\<exists>i<length pcs2. holds_lock (pcs2 ! i)) \<and>
     (\<forall>i<length pcs2. \<forall>d. pcs2 ! i = Returned (Inr d) \<longrightarrow> ssDeployment g2 = Some d) \<and>
     (\<forall>d. ssDeployment g1 = Some d \<longrightarrow> ssDeployment g2 = Some d) \<and>
     (ssDeployment g1 \<noteq> None \<or> (\<exists>i<length pcs1. \<exists>d. pcs1 ! i = Storing d)
        \<longrightarrow> provisionings g2 = provisionings g1) \<and>
     (\<forall>i<length pcs2. pcs2 ! i = Locking \<and> ssMutex g2 = Some False \<longrightarrow>
        run envs (replicate 6 i) (pcs2, g2) =
          (pcs2[i := Returned (fst (Deploy_locked (envs ! i) g2))], snd (Deploy_locked (envs ! i) g2)))"
proof -
  note c0 = consistent_initial [OF assms(1), of "length envs"]
  note c1 = consistent_run [OF c0 assms(2)]
  note c2 = consistent_run [OF c1 assms(3)]
  from length_run [OF assms(2)] length_run [OF assms(3)]
  have len: "length pcs2 = length envs" by simp
  from c2 have lock: "ssMutex g2 = Some False \<and> (\<forall>j<length pcs2. \<not> holds_lock (pcs2 ! j)) \<or>
      ssMutex g2 = Some True \<and>
        (\<exists>i<length pcs2. holds_lock (pcs2 ! i) \<and> (\<forall>j<length pcs2. j \<noteq> i \<longrightarrow> \<not> holds_lock (pcs2 ! j)))"
    unfolding consistent_def by blast
  have excl: "\<forall>i<length pcs2. \<forall>j<length pcs2. holds_lock (pcs2 ! i) \<and> holds_lock (pcs2 ! j) \<longrightarrow> i = j"
  proof (intro allI impI, elim conjE)
    fix i j
    assume i: "i < length pcs2" "holds_lock (pcs2 ! i)" and j: "j < length pcs2" "holds_lock (pcs2 ! j)"
    show "i = j"
    proof (rule ccontr)
      assume "i \<noteq> j"
      then have "j \<noteq> i" by simp
      from consistent_others [OF c2 i(1) disjI1 [OF i(2)] j(1) this] j(2) show False by simp
    qed
  qed
  from lock have mutex: "ssMutex g2 = Some (\<exists>i<length pcs2. holds_lock (pcs2 ! i))"
    by auto
  have ret: "\<forall>i<length pcs2. \<forall>d. pcs2 ! i = Returned (Inr d) \<longrightarrow> ssDeployment g2 = Some d"
  proof (intro allI impI)
    fix i d assume "i < length pcs2" "pcs2 ! i = Returned (Inr d)"
    then show "ssDeployment g2 = Some d"
      using consistent_cached [OF c2, of i d] by simp
  qed
  have kept: "\<forall>d. ssDeployment g1 = Some d \<longrightarrow> ssDeployment g2 = Some d"
  proof (intro allI impI)
    fix d assume d: "ssDeployment g1 = Some d"
    then have "settled pcs1 g1" by (simp add: settled_def)
    from settled_run [OF c1 this assms(3)] d show "ssDeployment g2 = Some d" by simp
  qed
  have once: "ssDeployment g1 \<noteq> None \<or> (\<exists>i<length pcs1. \<exists>d. pcs1 ! i = Storing d)
        \<longrightarrow> provisionings g2 = provisionings g1"
  proof
    assume "ssDeployment g1 \<noteq> None \<or> (\<exists>i<length pcs1. \<exists>d. pcs1 ! i = Storing d)"
    then have "settled pcs1 g1" unfolding settled_def .
    from settled_run [OF c1 this assms(3)] show "provisionings g2 = provisionings g1" by simp
  qed
  have solo: "\<forall>i<length pcs2. pcs2 ! i = Locking \<and> ssMutex g2 = Some False \<longrightarrow>
        run envs (replicate 6 i) (pcs2, g2) =
          (pcs2[i := Returned (fst (Deploy_locked (envs ! i) g2))], snd (Deploy_locked (envs ! i) g2))"
  proof (intro allI impI, elim conjE)
    fix i assume i: "i < length pcs2" and l: "pcs2 ! i = Locking" and f: "ssMutex g2 = Some False"
    from i len have "i < length envs" by simp
    from solo_run [OF f this i l]
    show "run envs (replicate 6 i) (pcs2, g2) =
          (pcs2[i := Returned (fst (Deploy_locked (envs ! i) g2))], snd (Deploy_locked (envs ! i) g2))" .
  qed
  from len excl mutex ret kept once solo show ?thesis by blast
qed

lemma interleaved_start:
  "run [working_call ''first'', working_call ''second''] [0, 1, 0, 0, 0]
       (replicate (length [working_call ''first'', working_call ''second'']) Locking, initial_globals)
   = ([Storing ''first'', Locking],
      \<lparr>ssDeployment = None, ssMutex = Some True, config_TCPDump = False,
        provisionings = [(''/repo/tests/mitmproxy_addons'', False)]\<rparr>)"
  by (simp add: sched_step_def working_call_def initial_globals_def)

lemma interleaved_end:
  "run [working_call ''first'', working_call ''second''] [1, 0, 0, 1, 1, 1, 1]
       ([Storing ''first'', Locking],
        \<lparr>ssDeployment = None, ssMutex = Some True, config_TCPDump = False,
          provisionings = [(''/repo/tests/mitmproxy_addons'', False)]\<rparr>)
   = ([Returned (Inr ''first''), Returned (Inr ''first'')],
      \<lparr>ssDeployment = Some ''first'', ssMutex = Some False, config_TCPDump = False,
        provisionings = [(''/repo/tests/mitmproxy_addons'', False)]\<rparr>)"
  by (simp add: sched_step_def working_call_def)

theorem Deploy_caches_once_under_lock_witness:
  "ssMutex initial_globals = Some False \<and>
   ssDeployment \<lparr>ssDeployment = Some ''first'', ssMutex = Some False, config_TCPDump = False,
        provisionings = [(''/repo/tests/mitmproxy_addons'', False)]\<rparr> = Some ''first'' \<and>
   provisionings \<lparr>ssDeployment = Some ''first'', ssMutex = Some False, config_TCPDump = False,
        provisionings = [(''/repo/tests/mitmproxy_addons'', False)]\<rparr>
     = provisionings \<lparr>ssDeployment = (None :: string option), ssMutex = Some True, config_TCPDump = False,
        provisionings = [(''/repo/tests/mitmproxy_addons'', False)]\<rparr> \<and>
   run [working_call ''first'', working_call ''second''] (replicate 6 1) ([Locking, Locking], initial_globals)
     = ([Locking, Returned (Inr ''second'')],
        \<lparr>ssDeployment = Some ''second'', ssMutex = Some False, config_TCPDump = False,
          provisionings = [(''/repo/tests/mitmproxy_addons'', False)]\<rparr>)"
proof -
  have m: "ssMutex initial_globals = Some False" by (simp add: initial_globals_def)
  note t = Deploy_caches_once_under_lock [OF m interleaved_start interleaved_end]
  note kept = t [THEN conjunct2, THEN conjunct2, THEN conjunct2, THEN conjunct1, rule_format, of 0 "''first''"]
  note once = t [THEN conjunct2, THEN conjunct2, THEN conjunct2, THEN conjunct2, THEN conjunct2,
                 THEN conjunct1, rule_format]
  have r0: "run [working_call ''first'', working_call ''second''] []
              (replicate (length [working_call ''first'', working_call ''second'']) Locking, initial_globals)
            = ([Locking, Locking], initial_globals)"
    by simp
  have r1: "run [working_call ''first'', working_call ''second''] [] ([Locking, Locking], initial_globals)
            = ([Locking, Locking], initial_globals)"
    by simp
  note solo = Deploy_caches_once_under_lock [OF m r0 r1, THEN conjunct2, THEN conjunct2, THEN conjunct2,
                 THEN conjunct2, THEN conjunct2, THEN conjunct2, rule_format, of 1]
  from kept have 4: "ssDeployment \<lparr>ssDeployment = Some ''first'', ssMutex = Some False, config_TCPDump = False,
        provisionings = [(''/repo/tests/mitmproxy_addons'', False)]\<rparr> = Some ''first''"
    by simp
  have st: "\<exists>i<length [Storing ''first'', Locking]. \<exists>d. [Storing ''first'', Locking] ! i = Storing d"
    by (intro exI [of _ 0]) simp
  from once [OF disjI2 [OF st]] have 5: "provisionings \<lparr>ssDeployment = Some ''first'', ssMutex = Some False, config_TCPDump = False,
        provisionings = [(''/repo/tests/mitmproxy_addons'', False)]\<rparr>
     = provisionings \<lparr>ssDeployment = (None :: string option), ssMutex = Some True, config_TCPDump = False,
        provisionings = [(''/repo/tests/mitmproxy_addons'', False)]\<rparr>"
    .
  from solo m have 6: "run [working_call ''first'', working_call ''second''] (replicate 6 1) ([Locking, Locking], initial_globals)
     = ([Locking, Returned (Inr ''second'')],
        \<lparr>ssDeployment = Some ''second'', ssMutex = Some False, config_TCPDump = False,
          provisionings = [(''/repo/tests/mitmproxy_addons'', False)]\<rparr>)"
    by (simp add: Deploy_locked_def working_call_def initial_globals_def del: run_Cons)
  from m 4 5 6 show ?thesis by (intro conjI)
qed

text \<open>
  C1 as stated fails: the first call of \<^verbatim>\<open>Deploy\<close> need not construct a deployment. When
  its provisioning is fatal to its test, the deferred \<^verbatim>\<open>Unlock\<close> runs and nothing is
  cached, so the next call provisions again: \<^verbatim>\<open>RunNewDeployment\<close> has been called twice.
\<close>

theorem Deploy_provisions_again_counterexample:
  "run [failing_call, working_call ''second''] [0, 0, 0, 0, 0, 0, 1, 1, 1, 1, 1, 1]
       ([Locking, Locking], initial_globals)
   = ([Returned (Inl (TestFatal ''failed to start reverse proxy container'')), Returned (Inr ''second'')],
      \<lparr>ssDeployment = Some ''second'', ssMutex = Some False, config_TCPDump = False,
        provisionings = [(''/repo/tests/mitmproxy_addons'', False),
                         (''/repo/tests/mitmproxy_addons'', False)]\<rparr>) \<and>
   ssDeployment (snd (run [failing_call, working_call ''second''] [0, 0, 0, 0, 0, 0]
       ([Locking, Locking], initial_globals))) = None"
  by (simp add: sched_step_def failing_call_def working_call_def initial_globals_def)


subsection \<open>The match budget of a rule\<close>

lemma serve_unlimited_or_budget:
  "rule_count r = Some n \<Longrightarrow> 0 \<le> n \<Longrightarrow>
   length (filter injected (fst (serve r reqs))) = min (nat n) (length (filter (rule_filter r) reqs)) \<and>
   rule_count (snd (serve r reqs)) = Some (n - int (length (filter injected (fst (serve r reqs))))) \<and>
   rule_filter (snd (serve r reqs)) = rule_filter r"
proof (induction reqs arbitrary: r n)
  case Nil
  then show ?case by simp
next
  case (Cons req reqs)
  show ?case
  proof (cases "rule_filter r req \<and> 0 < n")
    case True
    let ?r = "r\<lparr>rule_count := Some (n - 1)\<rparr>"
    from True Cons.prems have h: "handle_request r req = (Injected (return_status r) (block_request r), ?r)"
      by (simp add: handle_request_def)
    have "rule_count ?r = Some (n - 1)" "0 \<le> n - 1" using True by simp_all
    from Cons.IH [OF this] True h show ?thesis
      by (auto simp: split_beta min_def nat_diff_distrib)
  next
    case False
    with Cons.prems have h: "handle_request r req = (PassedThrough, r)"
      by (auto simp: handle_request_def)
    from Cons.IH [OF Cons.prems] False Cons.prems h show ?thesis
      by (auto simp: split_beta min_def)
  qed
qed


lemma serve_all_matching:
  "rule_count r = Some n \<Longrightarrow> 0 \<le> n \<Longrightarrow> \<forall>req \<in> set reqs. rule_filter r req \<Longrightarrow>
   fst (serve r reqs) =
     replicate (min (nat n) (length reqs)) (Injected (return_status r) (block_request r)) @
     replicate (length reqs - nat n) PassedThrough"
proof (induction reqs arbitrary: r n)
  case Nil
  then show ?case by simp
next
  case (Cons req reqs)
  show ?case
  proof (cases "0 < n")
    case True
    let ?r = "r\<lparr>rule_count := Some (n - 1)\<rparr>"
    from True Cons.prems have h: "handle_request r req = (Injected (return_status r) (block_request r), ?r)"
      by (simp add: handle_request_def)
    have "rule_count ?r = Some (n - 1)" "0 \<le> n - 1" "\<forall>req \<in> set reqs. rule_filter ?r req"
      using True Cons.prems by simp_all
    from Cons.IH [OF this] have
      "fst (serve ?r reqs) =
         replicate (min (nat (n - 1)) (length reqs)) (Injected (return_status r) (block_request r)) @
         replicate (length reqs - nat (n - 1)) PassedThrough" by simp
    moreover from True have "nat n = Suc (nat (n - 1))" by simp
    ultimately show ?thesis using h by (simp add: split_beta)
  next
    case False
    with Cons.prems have n0: "n = 0" by simp
    with Cons.prems have h: "handle_request r req = (PassedThrough, r)"
      by (simp add: handle_request_def)
    from Cons.IH [of r n] Cons.prems n0 h show ?thesis
      by (simp add: split_beta replicate_app_Cons_same)
  qed
qed

text \<open>
  C2. For a rule with match budget \<open>N \<ge> 1\<close> and requests arriving in any order: the
  number of requests that receive the injected action is the smaller of \<open>N\<close> and the
  number of matching requests, so never more than \<open>N\<close>; the budget left is \<open>N\<close> minus that
  number, one unit per injected request; and of \<open>N + 1\<close> matching requests the first \<open>N\<close>
  receive the action and the last one passes through unmodified.
\<close>

theorem match_budget_exact:
  assumes "rule_count r = Some N" and "1 \<le> N"
  shows "length (filter injected (fst (serve r reqs)))
           = min (nat N) (length (filter (rule_filter r) reqs)) \<and>
         length (filter injected (fst (serve r reqs))) \<le> nat N \<and>
         rule_count (snd (serve r reqs))
           = Some (N - int (length (filter injected (fst (serve r reqs))))) \<and>
         ((\<forall>req \<in> set reqs. rule_filter r req) \<and> length reqs = nat N + 1 \<longrightarrow>
            fst (serve r reqs) =
              replicate (nat N) (Injected (return_status r) (block_request r)) @ [PassedThrough])"
proof -
  from assms have n: "0 \<le> N" by simp
  note b = serve_unlimited_or_budget [OF assms(1) n, of reqs]
  have "(\<forall>req \<in> set reqs. rule_filter r req) \<and> length reqs = nat N + 1 \<longrightarrow>
            fst (serve r reqs) =
              replicate (nat N) (Injected (return_status r) (block_request r)) @ [PassedThrough]"
  proof
    assume a: "(\<forall>req \<in> set reqs. rule_filter r req) \<and> length reqs = nat N + 1"
    then have "\<forall>req \<in> set reqs. rule_filter r req" by blast
    from serve_all_matching [OF assms(1) n this] a show
      "fst (serve r reqs) =
              replicate (nat N) (Injected (return_status r) (block_request r)) @ [PassedThrough]"
      by simp
  qed
  with b show ?thesis by simp
qed

theorem match_budget_exact_witness:
  "fst (serve \<lparr>rule_filter = prefix ''/keys/query'', return_status = 504, block_request = True,
               rule_count = Some 3\<rparr>
          [''/keys/query'', ''/keys/query?a'', ''/keys/query'', ''/keys/query''])
     = [Injected 504 True, Injected 504 True, Injected 504 True, PassedThrough]"
proof -
  let ?r = "\<lparr>rule_filter = prefix ''/keys/query'', return_status = 504, block_request = True,
               rule_count = Some 3\<rparr>"
  let ?reqs = "[''/keys/query'', ''/keys/query?a'', ''/keys/query'', ''/keys/query'']"
  have 1: "rule_count ?r = Some 3" and 2: "(1::int) \<le> 3" by simp_all
  have 3: "(\<forall>req \<in> set ?reqs. rule_filter ?r req) \<and> length ?reqs = nat 3 + 1" by simp
  from match_budget_exact [OF 1 2, of ?reqs, THEN conjunct2, THEN conjunct2, THEN conjunct2, rule_format, OF 3]
  show ?thesis by (simp add: numeral_eq_Suc)
qed

subsection \<open>The waiter\<close>

lemma finished_Finish [simp]: "finished (Finish w)"
  by (simp add: Finish_def)

lemma Finish_finished [simp]: "finished w \<Longrightarrow> Finish w = w"
  by (simp add: Finish_def)

lemma Finish_again: "(Finish ^^ Suc k) w = Finish w"
  by (induction k) simp_all

lemma finished_funpow: "finished ((Finish ^^ k) w) \<longleftrightarrow> finished w \<or> 0 < k"
  by (cases k) (simp_all add: Finish_again del: funpow.simps)

lemma Wait_finished: "finished w \<Longrightarrow> Wait w calls timeout = (Completed, w)"
  by (cases timeout) simp_all

lemma Wait_Completed_iff:
  "fst (Wait w calls timeout) = Completed \<longleftrightarrow>
     finished w \<or> (\<exists>i<timeout. i < length calls \<and> 0 < calls ! i)"
proof (induction w calls timeout rule: Wait.induct)
  case (1 w calls)
  show ?case by simp
next
  case (2 w calls timeout)
  show ?case
  proof (cases "finished w")
    case True
    then show ?thesis by simp
  next
    case nf: False
    show ?thesis
    proof (cases calls)
      case Nil
      with nf 2 show ?thesis by simp
    next
      case (Cons k later)
      have "(\<exists>i<Suc timeout. i < length (k # later) \<and> 0 < (k # later) ! i) \<longleftrightarrow>
            0 < k \<or> (\<exists>i<timeout. i < length later \<and> 0 < later ! i)"
        by (auto simp: less_Suc_eq_0_disj)
      with nf Cons 2 show ?thesis by (simp add: finished_funpow)
    qed
  qed
qed

text \<open>
  C7. \<^verbatim>\<open>Finish\<close> is idempotent: calls after the first change nothing. \<^verbatim>\<open>Wait\<close> always
  returns: with failure when \<^verbatim>\<open>Finish\<close> is not called within the timeout, with success
  once \<^verbatim>\<open>Finish\<close> has been called, however many times, and in general with success exactly
  when the flag was set or a call of \<^verbatim>\<open>Finish\<close> falls within the timeout.
\<close>

theorem Waiter_contract:
  "Finish (Finish w) = Finish w \<and>
   (\<forall>k. (Finish ^^ Suc k) w = Finish w) \<and>
   (\<not> finished w \<and> (\<forall>i<timeout. i < length calls \<longrightarrow> calls ! i = 0)
      \<longrightarrow> fst (Wait w calls timeout) = TimedOut) \<and>
   (\<forall>k. Wait ((Finish ^^ Suc k) w) calls timeout = (Completed, Finish w)) \<and>
   (fst (Wait w calls timeout) = Completed \<longleftrightarrow>
      finished w \<or> (\<exists>i<timeout. i < length calls \<and> 0 < calls ! i))"
proof (intro conjI allI impI)
  show "Finish (Finish w) = Finish w" by simp
next
  fix k show "(Finish ^^ Suc k) w = Finish w" by (rule Finish_again)
next
  assume a: "\<not> finished w \<and> (\<forall>i<timeout. i < length calls \<longrightarrow> calls ! i = 0)"
  then have "fst (Wait w calls timeout) \<noteq> Completed"
    unfolding Wait_Completed_iff by auto
  then show "fst (Wait w calls timeout) = TimedOut"
    by (cases "fst (Wait w calls timeout)") simp_all
next
  fix k show "Wait ((Finish ^^ Suc k) w) calls timeout = (Completed, Finish w)"
    unfolding Finish_again by (simp add: Wait_finished)
next
  show "fst (Wait w calls timeout) = Completed \<longleftrightarrow>
      finished w \<or> (\<exists>i<timeout. i < length calls \<and> 0 < calls ! i)"
    by (rule Wait_Completed_iff)
qed

theorem Waiter_contract_witness:
  "fst (Wait NewWaiter [] 5) = TimedOut \<and>
   Wait ((Finish ^^ Suc 2) NewWaiter) [] 5 = (Completed, Finish NewWaiter)"
proof
  have "\<not> finished NewWaiter \<and> (\<forall>i<5. i < length ([]::nat list) \<longrightarrow> ([]::nat list) ! i = 0)"
    by (simp add: NewWaiter_def)
  from Waiter_contract [of NewWaiter 5 "[]", THEN conjunct2, THEN conjunct2, THEN conjunct1, rule_format, OF this]
  show "fst (Wait NewWaiter [] 5) = TimedOut" .
next
  from Waiter_contract [of NewWaiter 5 "[]", THEN conjunct2, THEN conjunct2, THEN conjunct2, THEN conjunct1, rule_format, of 2]
  show "Wait ((Finish ^^ Suc 2) NewWaiter) [] 5 = (Completed, Finish NewWaiter)" .
qed

end
